theory Spec2Isabelle
  imports Main "HOL-Library.Sublist"
begin

section \<open>Parsed JSON and the Python operations applied to it\<close>

text \<open>
  \<^verbatim>\<open>json.load\<close> returns \<^verbatim>\<open>None\<close>, booleans, numbers, strings, lists and dicts with string
  keys. A dict is kept as the list of its items in insertion order (keys distinct, as in
  any Python dict). Numbers are Python's unbounded integers; floating-point numbers are
  not part of this model. A \<open>char\<close> stands for one code point, so strings range over
  the code points below 256.
\<close>

datatype json =
    JNull
  | JBool bool
  | JInt int
  | JStr string
  | JArr "json list"
  | JObj "(string \<times> json) list"

type_synonym obj = "(string \<times> json) list"

text \<open>
  The exceptions the exporter can raise. None of them is caught inside
  \<^verbatim>\<open>export_bookmarks\<close>; a function that can raise returns \<open>Inl\<close> of the exception.
\<close>

datatype py_error = KeyError | TypeError | AttributeError | IndexError | RecursionError

fun and_then :: "'e + 'a \<Rightarrow> ('a \<Rightarrow> 'e + 'b) \<Rightarrow> 'e + 'b" where
  "and_then (Inl e) f = Inl e"
| "and_then (Inr x) f = f x"

text \<open>A \<^verbatim>\<open>for\<close> loop over a list whose body updates the loop's state or raises.\<close>

fun for_each :: "('a \<Rightarrow> 's \<Rightarrow> 'e + 's) \<Rightarrow> 'a list \<Rightarrow> 's \<Rightarrow> 'e + 's" where
  "for_each body [] s = Inr s"
| "for_each body (x # xs) s = and_then (body x s) (for_each body xs)"

text \<open>Truth value testing (\<^verbatim>\<open>if x\<close>, \<^verbatim>\<open>not x\<close>, \<^verbatim>\<open>x or y\<close>).\<close>

fun py_truthy :: "json \<Rightarrow> bool" where
  "py_truthy JNull = False"
| "py_truthy (JBool b) = b"
| "py_truthy (JInt n) = (n \<noteq> 0)"
| "py_truthy (JStr s) = (s \<noteq> [])"
| "py_truthy (JArr xs) = (xs \<noteq> [])"
| "py_truthy (JObj kvs) = (kvs \<noteq> [])"

definition py_or :: "json \<Rightarrow> json \<Rightarrow> json" where
  "py_or a b = (if py_truthy a then a else b)"

text \<open>
  \<^verbatim>\<open>==\<close> on parsed JSON: \<^verbatim>\<open>True == 1\<close> and \<^verbatim>\<open>False == 0\<close>, lists compare element by
  element, dicts compare as mappings whatever the order of their items.
\<close>

fun py_eq :: "json \<Rightarrow> json \<Rightarrow> bool"
  and py_eq_list :: "json list \<Rightarrow> json list \<Rightarrow> bool"
  and py_eq_dict :: "obj \<Rightarrow> obj \<Rightarrow> bool" where
  "py_eq JNull y = (y = JNull)"
| "py_eq (JBool a) y =
     (case y of JBool b \<Rightarrow> a = b | JInt n \<Rightarrow> n = (if a then 1 else 0) | _ \<Rightarrow> False)"
| "py_eq (JInt m) y =
     (case y of JInt n \<Rightarrow> m = n | JBool b \<Rightarrow> m = (if b then 1 else 0) | _ \<Rightarrow> False)"
| "py_eq (JStr s) y = (y = JStr s)"
| "py_eq (JArr xs) y = (case y of JArr ys \<Rightarrow> py_eq_list xs ys | _ \<Rightarrow> False)"
| "py_eq (JObj a) y =
     (case y of JObj b \<Rightarrow> length a = length b \<and> py_eq_dict a b | _ \<Rightarrow> False)"
| "py_eq_list [] ys = (ys = [])"
| "py_eq_list (x # xs) ys =
     (case ys of [] \<Rightarrow> False | y # ys' \<Rightarrow> py_eq x y \<and> py_eq_list xs ys')"
| "py_eq_dict [] b = True"
| "py_eq_dict (kv # a) b =
     (case map_of b (fst kv) of
        None \<Rightarrow> False
      | Some w \<Rightarrow> py_eq (snd kv) w \<and> py_eq_dict a b)"

text \<open>Lists and dicts are unhashable: using one as a dict key raises \<^verbatim>\<open>TypeError\<close>.\<close>

fun hashable :: "json \<Rightarrow> bool" where
  "hashable (JArr xs) = False"
| "hashable (JObj kvs) = False"
| "hashable x = True"

text \<open>\<^verbatim>\<open>d.get(k, default)\<close> on a value known to be a dict.\<close>

definition obj_get :: "obj \<Rightarrow> string \<Rightarrow> json \<Rightarrow> json" where
  "obj_get d k dflt = (case map_of d k of None \<Rightarrow> dflt | Some v \<Rightarrow> v)"

text \<open>\<^verbatim>\<open>x.get(k, default)\<close> on any value: only dicts have the method.\<close>

fun py_get :: "json \<Rightarrow> string \<Rightarrow> json \<Rightarrow> py_error + json" where
  "py_get (JObj d) k dflt = Inr (obj_get d k dflt)"
| "py_get x k dflt = Inl AttributeError"

text \<open>\<^verbatim>\<open>x[k]\<close> with a string \<open>k\<close>.\<close>

fun py_item :: "json \<Rightarrow> string \<Rightarrow> py_error + json" where
  "py_item (JObj d) k = (case map_of d k of None \<Rightarrow> Inl KeyError | Some v \<Rightarrow> Inr v)"
| "py_item x k = Inl TypeError"

text \<open>
  \<^verbatim>\<open>k in x\<close> with a string \<open>k\<close>: a key of a dict, an element of a list, a substring of a
  string; anything else is not iterable.
\<close>

fun py_contains :: "string \<Rightarrow> json \<Rightarrow> py_error + bool" where
  "py_contains k (JObj d) = Inr (k \<in> set (map fst d))"
| "py_contains k (JArr xs) = Inr (JStr k \<in> set xs)"
| "py_contains k (JStr s) = Inr (sublist k s)"
| "py_contains k x = Inl TypeError"

text \<open>Iteration: the elements of a list, the keys of a dict, the characters of a string.\<close>

fun py_iter :: "json \<Rightarrow> py_error + json list" where
  "py_iter (JArr xs) = Inr xs"
| "py_iter (JObj d) = Inr (map (\<lambda>kv. JStr (fst kv)) d)"
| "py_iter (JStr s) = Inr (map (\<lambda>c. JStr [c]) s)"
| "py_iter x = Inl TypeError"

text \<open>\<^verbatim>\<open>x[i]\<close> with an integer \<open>i \<ge> 0\<close>. A dict's keys are strings, so it has no key \<open>i\<close>.\<close>

fun py_at :: "json \<Rightarrow> nat \<Rightarrow> py_error + json" where
  "py_at (JArr xs) i = (if i < length xs then Inr (xs ! i) else Inl IndexError)"
| "py_at (JStr s) i = (if i < length s then Inr (JStr [s ! i]) else Inl IndexError)"
| "py_at (JObj d) i = Inl KeyError"
| "py_at x i = Inl TypeError"

text \<open>\<^verbatim>\<open>x[-1]\<close>.\<close>

fun py_last :: "json \<Rightarrow> py_error + json" where
  "py_last (JArr xs) = (if xs = [] then Inl IndexError else Inr (last xs))"
| "py_last (JStr s) = (if s = [] then Inl IndexError else Inr (JStr [last s]))"
| "py_last (JObj d) = Inl KeyError"
| "py_last x = Inl TypeError"

subsection \<open>\<^verbatim>\<open>str\<close> and \<^verbatim>\<open>html.escape\<close>\<close>

fun decimal :: "nat \<Rightarrow> string" where
  "decimal n =
     (if n < 10 then [char_of (48 + n)]
      else decimal (n div 10) @ [char_of (48 + n mod 10)])"

declare decimal.simps [simp del]

definition hex2 :: "nat \<Rightarrow> string" where
  "hex2 n = [''0123456789abcdef'' ! (n div 16 mod 16), ''0123456789abcdef'' ! (n mod 16)]"

text \<open>
  \<^verbatim>\<open>repr\<close> of a string: single quotes unless the string has a single quote and no double
  quote; the quote in use and the backslash are escaped, as are the characters that are
  not printable.
\<close>

definition repr_quote :: "string \<Rightarrow> char" where
  "repr_quote s = (if CHR 0x27 \<in> set s \<and> CHR 0x22 \<notin> set s then CHR 0x22 else CHR 0x27)"

definition repr_char :: "char \<Rightarrow> char \<Rightarrow> string" where
  "repr_char q c =
     (let n = (of_char c :: nat) in
      if c = q \<or> c = CHR 0x5C then [CHR 0x5C, c]
      else if n = 9 then [CHR 0x5C, CHR ''t'']
      else if n = 10 then [CHR 0x5C, CHR ''n'']
      else if n = 13 then [CHR 0x5C, CHR ''r'']
      else if n < 32 \<or> n = 127 \<or> (128 \<le> n \<and> n \<le> 160) \<or> n = 173
        then [CHR 0x5C, CHR ''x''] @ hex2 n
      else [c])"

definition repr_str :: "string \<Rightarrow> string" where
  "repr_str s = (let q = repr_quote s in [q] @ concat (map (repr_char q) s) @ [q])"

definition comma_join :: "string list \<Rightarrow> string" where
  "comma_join parts = (case parts of [] \<Rightarrow> [] | p # ps \<Rightarrow> p @ concat (map (\<lambda>x. '', '' @ x) ps))"

fun py_repr :: "json \<Rightarrow> string"
  and py_repr_list :: "json list \<Rightarrow> string list"
  and py_repr_items :: "obj \<Rightarrow> string list" where
  "py_repr JNull = ''None''"
| "py_repr (JBool b) = (if b then ''True'' else ''False'')"
| "py_repr (JInt n) = (if n < 0 then ''-'' @ decimal (nat (- n)) else decimal (nat n))"
| "py_repr (JStr s) = repr_str s"
| "py_repr (JArr xs) = ''['' @ comma_join (py_repr_list xs) @ '']''"
| "py_repr (JObj d) = ''{'' @ comma_join (py_repr_items d) @ ''}''"
| "py_repr_list [] = []"
| "py_repr_list (x # xs) = py_repr x # py_repr_list xs"
| "py_repr_items [] = []"
| "py_repr_items (kv # d) = (repr_str (fst kv) @ '': '' @ py_repr (snd kv)) # py_repr_items d"

definition py_str :: "json \<Rightarrow> string" where
  "py_str x = (case x of JStr s \<Rightarrow> s | _ \<Rightarrow> py_repr x)"

definition html_escape_char :: "char \<Rightarrow> string" where
  \<open>html_escape_char c =
     (if c = CHR ''&'' then ''&amp;''
      else if c = CHR ''<'' then ''&lt;''
      else if c = CHR ''>'' then ''&gt;''
      else if c = CHR 0x22 then ''&quot;''
      else if c = CHR 0x27 then ''&#x27;''
      else [c])\<close>

definition html_escape :: "string \<Rightarrow> string" where
  "html_escape s = concat (map html_escape_char s)"

definition escape_html_text :: "json \<Rightarrow> string" where
  "escape_html_text text = (if py_truthy text then html_escape (py_str text) else [])"

section \<open>The exporter\<close>

subsection \<open>\<^verbatim>\<open>get_item_type\<close>\<close>

text \<open>The source returns \<^verbatim>\<open>'folder'\<close>, \<^verbatim>\<open>'tab'\<close> or \<^verbatim>\<open>None\<close>.\<close>

datatype item_type = Folder | Tab

definition get_item_type :: "obj \<Rightarrow> py_error + item_type option" where
  "get_item_type item =
     (case map_of item ''data'' of
        None \<Rightarrow> Inr None
      | Some d \<Rightarrow>
          and_then (py_contains ''list'' d) (\<lambda>is_list.
            if is_list then Inr (Some Folder)
            else and_then (py_contains ''tab'' d) (\<lambda>is_tab.
              if is_tab then Inr (Some Tab) else Inr None)))"

subsection \<open>The item index \<^verbatim>\<open>items_by_id\<close>\<close>

text \<open>
  A Python dict from item ids to item records, in insertion order. Keys are compared
  with \<^verbatim>\<open>==\<close>; storing under a key that is already there replaces the value and keeps
  the key and its position.
\<close>

type_synonym index = "(json \<times> obj) list"

fun index_lookup :: "index \<Rightarrow> json \<Rightarrow> obj option" where
  "index_lookup [] k = None"
| "index_lookup (kv # idx) k = (if py_eq (fst kv) k then Some (snd kv) else index_lookup idx k)"

fun index_store :: "index \<Rightarrow> json \<Rightarrow> obj \<Rightarrow> index" where
  "index_store [] k v = [(k, v)]"
| "index_store (kv # idx) k v =
     (if py_eq (fst kv) k then (fst kv, v) # idx else kv # index_store idx k v)"

text \<open>\<^verbatim>\<open>k in items_by_id\<close> followed by \<^verbatim>\<open>items_by_id[k]\<close>: hashing \<open>k\<close> comes first.\<close>

definition index_find :: "index \<Rightarrow> json \<Rightarrow> py_error + obj option" where
  "index_find idx k = (if hashable k then Inr (index_lookup idx k) else Inl TypeError)"

text \<open>
  The loop \<^verbatim>\<open>for i in range(0, len(items), 2)\<close> over a list: \<^verbatim>\<open>items[i]\<close> is never read,
  \<^verbatim>\<open>items[i + 1]\<close> is stored when it is a dict with an \<^verbatim>\<open>id\<close>, and a last element
  without a partner is left alone.
\<close>

fun index_pairs :: "json list \<Rightarrow> index \<Rightarrow> py_error + index" where
  "index_pairs (marker # item_data # rest) idx =
     (case item_data of
        JObj d \<Rightarrow>
          (case map_of d ''id'' of
             None \<Rightarrow> index_pairs rest idx
           | Some k \<Rightarrow>
               if hashable k then index_pairs rest (index_store idx k d) else Inl TypeError)
      | _ \<Rightarrow> index_pairs rest idx)"
| "index_pairs [marker] idx = Inr idx"
| "index_pairs [] idx = Inr idx"

text \<open>
  \<^verbatim>\<open>items\<close> is whatever \<^verbatim>\<open>last_container.get('items', [])\<close> returned. On a string every
  \<^verbatim>\<open>items[i + 1]\<close> is a one-character string, never a dict; on a dict with two or more
  keys \<^verbatim>\<open>items[1]\<close> raises \<^verbatim>\<open>KeyError\<close>; anything else has no \<^verbatim>\<open>len\<close>.
\<close>

definition build_index :: "json \<Rightarrow> py_error + index" where
  "build_index items =
     (case items of
        JArr xs \<Rightarrow> index_pairs xs []
      | JStr s \<Rightarrow> Inr []
      | JObj d \<Rightarrow> (if 2 \<le> length d then Inl KeyError else Inr [])
      | _ \<Rightarrow> Inl TypeError)"

subsection \<open>Tabs and folders\<close>

record tab =
  t_title :: json
  t_url :: json

record folder =
  f_title :: json
  f_tabs :: "tab list"

text \<open>
  The block both \<^verbatim>\<open>get_folder_with_direct_tabs\<close> and \<^verbatim>\<open>export_bookmarks\<close> run on an item
  classified as a tab: the entry to append, or nothing when the URL is falsy.
\<close>

definition read_tab :: "obj \<Rightarrow> py_error + tab option" where
  "read_tab child =
     and_then (py_item (JObj child) ''data'') (\<lambda>d.
     and_then (py_item d ''tab'') (\<lambda>tab_data.
     and_then (py_get tab_data ''savedURL'' (JStr [])) (\<lambda>url.
     and_then (py_get tab_data ''savedTitle'' (JStr [])) (\<lambda>saved.
       Inr (if py_truthy url
            then Some \<lparr>t_title = py_or (py_or (obj_get child ''title'' JNull) saved)
                                     (JStr ''Untitled''),
                       t_url = url\<rparr>
            else None)))))"

definition direct_tab :: "index \<Rightarrow> json \<Rightarrow> tab list \<Rightarrow> py_error + tab list" where
  "direct_tab idx child_id tabs =
     and_then (index_find idx child_id) (\<lambda>found.
       case found of
         None \<Rightarrow> Inr tabs
       | Some child \<Rightarrow>
           and_then (get_item_type child) (\<lambda>t.
             if t = Some Tab
             then and_then (read_tab child) (\<lambda>entry.
                    Inr (case entry of None \<Rightarrow> tabs | Some e \<Rightarrow> tabs @ [e]))
             else Inr tabs))"

definition get_folder_with_direct_tabs :: "json \<Rightarrow> index \<Rightarrow> py_error + folder option" where
  "get_folder_with_direct_tabs item_id idx =
     and_then (index_find idx item_id) (\<lambda>found.
       case found of
         None \<Rightarrow> Inr None
       | Some item \<Rightarrow>
           and_then (get_item_type item) (\<lambda>t.
             if t \<noteq> Some Folder then Inr None
             else
               and_then (py_iter (obj_get item ''childrenIds'' (JArr []))) (\<lambda>children.
               and_then (for_each (direct_tab idx) children []) (\<lambda>tabs.
                 Inr (Some \<lparr>f_title = py_or (obj_get item ''title'' JNull)
                                              (JStr ''Untitled Folder''),
                            f_tabs = tabs\<rparr>)))))"

subsection \<open>\<^verbatim>\<open>get_all_folders_flat\<close>\<close>

text \<open>
  The source recurses on every child that is a folder and has no guard against a cycle
  in \<^verbatim>\<open>childrenIds\<close>. The first argument is the number of nested calls the interpreter
  still allows; a call made when none is left raises \<^verbatim>\<open>RecursionError\<close>. The list
  \<open>collected\<close> is the accumulator the source mutates in place.
\<close>

fun get_all_folders_flat :: "nat \<Rightarrow> json \<Rightarrow> index \<Rightarrow> folder list \<Rightarrow> py_error + folder list" where
  "get_all_folders_flat 0 item_id idx collected = Inl RecursionError"
| "get_all_folders_flat (Suc depth) item_id idx collected =
     and_then (index_find idx item_id) (\<lambda>found.
       case found of
         None \<Rightarrow> Inr collected
       | Some item \<Rightarrow>
           and_then (get_item_type item) (\<lambda>t.
             if t \<noteq> Some Folder then Inr collected
             else
               and_then (get_folder_with_direct_tabs item_id idx) (\<lambda>fld.
               and_then (py_iter (obj_get item ''childrenIds'' (JArr []))) (\<lambda>children.
                 for_each
                   (\<lambda>child_id acc.
                      and_then (index_find idx child_id) (\<lambda>found_child.
                        case found_child of
                          None \<Rightarrow> Inr acc
                        | Some child \<Rightarrow>
                            and_then (get_item_type child) (\<lambda>ct.
                              if ct = Some Folder
                              then get_all_folders_flat depth child_id idx acc
                              else Inr acc)))
                   children
                   (case fld of
                      None \<Rightarrow> collected
                    | Some f \<Rightarrow> if f_tabs f \<noteq> [] then collected @ [f] else collected)))))"

subsection \<open>Spaces\<close>

text \<open>
  \<^verbatim>\<open>pinned_container\<close> starts as \<^verbatim>\<open>None\<close>, which is the value \<open>JNull\<close>. The loop over
  \<^verbatim>\<open>enumerate(container_ids)\<close> overwrites it at every \<^verbatim>\<open>'pinned'\<close> that has a successor,
  so the last such marker wins; \<open>n\<close> is \<^verbatim>\<open>len(container_ids)\<close>.
\<close>

record space_info =
  sp_id :: json
  sp_title :: json
  pinned_container :: json

fun scan_pinned :: "json \<Rightarrow> nat \<Rightarrow> nat \<Rightarrow> json list \<Rightarrow> json \<Rightarrow> py_error + json" where
  "scan_pinned container_ids n i [] pinned = Inr pinned"
| "scan_pinned container_ids n i (cid # rest) pinned =
     (if py_eq cid (JStr ''pinned'') \<and> i + 1 < n
      then and_then (py_at container_ids (i + 1)) (scan_pinned container_ids n (i + 1) rest)
      else scan_pinned container_ids n (i + 1) rest pinned)"

text \<open>The body of the loop over \<^verbatim>\<open>last_container.get('spaces', [])\<close>.\<close>

definition resolve_space :: "json \<Rightarrow> space_info list \<Rightarrow> py_error + space_info list" where
  "resolve_space space resolved =
     (case space of
        JObj d \<Rightarrow>
          (case map_of d ''title'' of
             None \<Rightarrow> Inr resolved
           | Some title \<Rightarrow>
               and_then (py_item space ''id'') (\<lambda>sid.
               and_then (py_iter (obj_get d ''containerIDs'' (JArr []))) (\<lambda>cids.
               and_then (scan_pinned (obj_get d ''containerIDs'' (JArr [])) (length cids) 0 cids JNull)
                 (\<lambda>pinned.
                    Inr (resolved @ [\<lparr>sp_id = sid, sp_title = title, pinned_container = pinned\<rparr>])))))
      | _ \<Rightarrow> Inr resolved)"

subsection \<open>Writing the document\<close>

record out_state =
  html_lines :: "string list"
  total_folders :: nat
  total_bookmarks :: nat

definition anchor :: "tab \<Rightarrow> string" where
  \<open>anchor t =
     ''<DT><A HREF="'' @ escape_html_text (t_url t) @ ''">'' @ escape_html_text (t_title t) @ ''</A>''\<close>

definition write_tab :: "string \<Rightarrow> tab \<Rightarrow> out_state \<Rightarrow> out_state" where
  "write_tab indent t out =
     out\<lparr>html_lines := html_lines out @ [indent @ anchor t],
         total_bookmarks := total_bookmarks out + 1\<rparr>"

definition write_folder :: "folder \<Rightarrow> out_state \<Rightarrow> out_state" where
  "write_folder f out =
     (let out1 = out\<lparr>html_lines := html_lines out @
                   [''        <DT><H3>'' @ escape_html_text (f_title f) @ ''</H3>'',
                    ''        <DL><p>'']\<rparr>;
          out2 = fold (write_tab ''            '') (f_tabs f) out1
      in out2\<lparr>html_lines := html_lines out2 @ [''        </DL><p>''],
              total_folders := total_folders out2 + 1\<rparr>)"

text \<open>
  The items whose \<^verbatim>\<open>item.get('parentID')\<close> equals the space's pinned container, in the
  order of the index. A missing \<^verbatim>\<open>parentID\<close> reads as \<^verbatim>\<open>None\<close>.
\<close>

definition top_level_items :: "index \<Rightarrow> json \<Rightarrow> json list" where
  "top_level_items idx pinned_container_id =
     map fst (filter (\<lambda>kv. py_eq (obj_get (snd kv) ''parentID'' JNull) pinned_container_id) idx)"

text \<open>
  The body of the loop over \<^verbatim>\<open>top_level_items\<close>; the state is
  \<^verbatim>\<open>(all_folders, standalone_tabs)\<close>.
\<close>

definition collect_item ::
  "nat \<Rightarrow> index \<Rightarrow> json \<Rightarrow> folder list \<times> tab list \<Rightarrow> py_error + folder list \<times> tab list" where
  "collect_item depth idx item_id acc =
     (case index_lookup idx item_id of
        None \<Rightarrow> Inl KeyError
      | Some item \<Rightarrow>
          and_then (get_item_type item) (\<lambda>item_type.
            if item_type = Some Folder
            then and_then (get_all_folders_flat depth item_id idx []) (\<lambda>fs.
                   Inr (fst acc @ fs, snd acc))
            else if item_type = Some Tab
            then and_then (read_tab item) (\<lambda>entry.
                   Inr (fst acc, (case entry of None \<Rightarrow> snd acc | Some e \<Rightarrow> snd acc @ [e])))
            else Inr acc))"

text \<open>The body of the loop over the resolved spaces.\<close>

definition export_space :: "nat \<Rightarrow> index \<Rightarrow> space_info \<Rightarrow> out_state \<Rightarrow> py_error + out_state" where
  "export_space depth idx space out =
     (let top = top_level_items idx (pinned_container space) in
      if top = [] then Inr out
      else
        let out1 = out\<lparr>html_lines := html_lines out @
                     [''    <DT><H3>'' @ escape_html_text (sp_title space) @ ''</H3>'',
                      ''    <DL><p>'']\<rparr>
        in and_then (for_each (collect_item depth idx) top ([], [])) (\<lambda>collected.
             let out2 = fold write_folder (fst collected) out1;
                 out3 = fold (write_tab ''        '') (snd collected) out2
             in Inr (out3\<lparr>html_lines := html_lines out3 @ [''    </DL><p>'']\<rparr>)))"

subsection \<open>\<^verbatim>\<open>export_bookmarks\<close> and its caller\<close>

text \<open>
  \<open>now\<close> is the text \<^verbatim>\<open>datetime.now().strftime("%Y-%m-%d %H:%M:%S")\<close> returned during
  the call.
\<close>

definition header :: "string \<Rightarrow> string list" where
  \<open>header now =
     [''<!DOCTYPE NETSCAPE-Bookmark-file-1>'',
      ''<!-- Exported from Arc Browser using arc_to_bookmarks.py -->'',
      ''<!-- Export date: '' @ now @ '' -->'',
      ''<META HTTP-EQUIV="Content-Type" CONTENT="text/html; charset=UTF-8">'',
      ''<TITLE>Arc Bookmarks</TITLE>'',
      ''<H1>Arc Bookmarks</H1>'',
      ''<DL><p>'']\<close>

text \<open>\<^verbatim>\<open>'\n'.join(html_lines)\<close>\<close>

definition join_lines :: "string list \<Rightarrow> string" where
  "join_lines ls = (case ls of [] \<Rightarrow> [] | l # rest \<Rightarrow> l @ concat (map (\<lambda>x. CHR 0x0A # x) rest))"

record export_result =
  html :: string
  folders :: nat
  bookmarks :: nat
  spaces :: nat

text \<open>The three stages of \<^verbatim>\<open>export_bookmarks\<close>, as its comments name them.\<close>

definition get_spaces_info :: "json \<Rightarrow> py_error + space_info list" where
  "get_spaces_info last_container =
     and_then (py_get last_container ''spaces'' (JArr [])) (\<lambda>space_records.
     and_then (py_iter space_records) (\<lambda>space_list.
       for_each resolve_space space_list []))"

definition build_items_dictionary :: "json \<Rightarrow> py_error + index" where
  "build_items_dictionary last_container =
     and_then (py_get last_container ''items'' (JArr [])) build_index"

definition generate_html ::
  "nat \<Rightarrow> string \<Rightarrow> index \<Rightarrow> space_info list \<Rightarrow> py_error + export_result" where
  "generate_html depth now idx resolved =
     and_then (for_each (export_space depth idx) resolved
                 \<lparr>html_lines = header now, total_folders = 0, total_bookmarks = 0\<rparr>)
       (\<lambda>out.
          Inr \<lparr>html = join_lines (html_lines out @ [''</DL><p>'']),
               folders = total_folders out,
               bookmarks = total_bookmarks out,
               spaces = length resolved\<rparr>)"

text \<open>\<open>Inr None\<close> is the source's \<^verbatim>\<open>return None\<close>.\<close>

definition export_bookmarks :: "nat \<Rightarrow> string \<Rightarrow> json \<Rightarrow> py_error + export_result option" where
  "export_bookmarks depth now data =
     and_then (py_get data ''sidebar'' (JObj [])) (\<lambda>sidebar.
     and_then (py_get sidebar ''containers'' (JArr [])) (\<lambda>containers.
       if \<not> py_truthy containers then Inr None
       else
         and_then (py_last containers) (\<lambda>last_container.
         and_then (get_spaces_info last_container) (\<lambda>resolved.
           if resolved = [] then Inr None
           else
             and_then (build_items_dictionary last_container) (\<lambda>idx.
             and_then (generate_html depth now idx resolved) (\<lambda>result.
               Inr (Some result)))))))"

text \<open>
  What \<^verbatim>\<open>main\<close> does with the parsed document: it writes \<^verbatim>\<open>result['html']\<close> to the
  output file when \<^verbatim>\<open>export_bookmarks\<close> returns a result, and exits with status 1,
  writing nothing, when it returns \<^verbatim>\<open>None\<close> or raises.
\<close>

datatype outcome = Written string | Exit1

definition run_export :: "nat \<Rightarrow> string \<Rightarrow> json \<Rightarrow> outcome" where
  "run_export depth now data =
     (case export_bookmarks depth now data of
        Inl e \<Rightarrow> Exit1
      | Inr None \<Rightarrow> Exit1
      | Inr (Some result) \<Rightarrow> Written (html result))"

section \<open>Notions the properties are stated with\<close>

subsection \<open>The index as a table of records\<close>

text \<open>
  The elements at the odd positions \<open>1, 3, 5, \<dots>\<close> of a list, what storing one of
  them does to the index, and whether it can be stored at all: a record whose \<^verbatim>\<open>id\<close>
  is a list or a dict cannot be a key.
\<close>

definition odd_elements :: "'a list \<Rightarrow> 'a list" where
  "odd_elements xs = map (\<lambda>k. xs ! (2 * k + 1)) [0..<length xs div 2]"

definition insert_record :: "json \<Rightarrow> index \<Rightarrow> index" where
  "insert_record x idx =
     (case x of
        JObj d \<Rightarrow> (case map_of d ''id'' of None \<Rightarrow> idx | Some k \<Rightarrow> index_store idx k d)
      | _ \<Rightarrow> idx)"

definition storable :: "json \<Rightarrow> bool" where
  "storable x =
     (case x of
        JObj d \<Rightarrow> (case map_of d ''id'' of None \<Rightarrow> True | Some k \<Rightarrow> hashable k)
      | _ \<Rightarrow> True)"

subsection \<open>The folder tree\<close>

text \<open>
  The children a call of \<^verbatim>\<open>get_all_folders_flat\<close> on \<open>k\<close> recurses into: the ids in the
  \<^verbatim>\<open>childrenIds\<close> of \<open>k\<close>, in their order, that are in the index and classified as
  folders. \<open>child_rel\<close> is the parent-child relation these make, \<open>preorder\<close> the
  depth-first, parent-first listing of the folders below \<open>k\<close> down to a depth, and
  \<open>own_entry\<close> the entry a folder contributes: itself with its direct tabs when it has
  one, nothing otherwise.
\<close>

definition is_folder :: "index \<Rightarrow> json \<Rightarrow> bool" where
  "is_folder idx k =
     (case index_find idx k of
        Inr (Some item) \<Rightarrow> get_item_type item = Inr (Some Folder)
      | _ \<Rightarrow> False)"

definition folder_children :: "index \<Rightarrow> json \<Rightarrow> json list" where
  "folder_children idx k =
     (case index_find idx k of
        Inr (Some item) \<Rightarrow>
          (if get_item_type item = Inr (Some Folder)
           then (case py_iter (obj_get item ''childrenIds'' (JArr [])) of
                   Inr children \<Rightarrow> filter (is_folder idx) children
                 | Inl e \<Rightarrow> [])
           else [])
      | _ \<Rightarrow> [])"

definition child_rel :: "index \<Rightarrow> (json \<times> json) set" where
  "child_rel idx = {(c, p). c \<in> set (folder_children idx p)}"

fun preorder :: "nat \<Rightarrow> index \<Rightarrow> json \<Rightarrow> json list" where
  "preorder 0 idx k = []"
| "preorder (Suc depth) idx k =
     (if is_folder idx k
      then k # concat (map (preorder depth idx) (folder_children idx k))
      else [])"

definition own_entry :: "index \<Rightarrow> json \<Rightarrow> folder list" where
  "own_entry idx k =
     (case get_folder_with_direct_tabs k idx of
        Inr (Some f) \<Rightarrow> if f_tabs f \<noteq> [] then [f] else []
      | _ \<Rightarrow> [])"

text \<open>The body of the loop over the children in \<^verbatim>\<open>get_all_folders_flat\<close>.\<close>

definition visit_child ::
  "(json \<Rightarrow> folder list \<Rightarrow> py_error + folder list) \<Rightarrow> index \<Rightarrow> json \<Rightarrow> folder list
     \<Rightarrow> py_error + folder list" where
  "visit_child recurse idx child_id acc =
     and_then (index_find idx child_id) (\<lambda>found_child.
       case found_child of
         None \<Rightarrow> Inr acc
       | Some child \<Rightarrow>
           and_then (get_item_type child) (\<lambda>ct.
             if ct = Some Folder then recurse child_id acc else Inr acc))"

subsection \<open>The parts of a document\<close>

text \<open>
  A space record counts when it is a dict with a \<^verbatim>\<open>title\<close>. \<open>containers_of\<close>,
  \<open>space_records\<close> and \<open>last_space_records\<close> read \<^verbatim>\<open>sidebar.containers\<close> and the
  \<^verbatim>\<open>spaces\<close> list of its last element as \<^verbatim>\<open>export_bookmarks\<close> does; \<open>resolved_spaces\<close>
  and \<open>items_index\<close> are the spaces and the index it builds from that element.
\<close>

definition titled :: "json \<Rightarrow> bool" where
  "titled x = (case x of JObj d \<Rightarrow> map_of d ''title'' \<noteq> None | _ \<Rightarrow> False)"

definition containers_of :: "json \<Rightarrow> py_error + json" where
  "containers_of data =
     and_then (py_get data ''sidebar'' (JObj [])) (\<lambda>sidebar.
       py_get sidebar ''containers'' (JArr []))"

definition space_records :: "json \<Rightarrow> py_error + json list" where
  "space_records last_container =
     and_then (py_get last_container ''spaces'' (JArr [])) py_iter"

definition last_space_records :: "json \<Rightarrow> py_error + json list" where
  "last_space_records data =
     and_then (containers_of data) (\<lambda>containers.
     and_then (py_last containers) space_records)"

definition resolved_spaces :: "json \<Rightarrow> py_error + space_info list" where
  "resolved_spaces data =
     and_then (containers_of data) (\<lambda>containers.
     and_then (py_last containers) get_spaces_info)"

definition items_index :: "json \<Rightarrow> py_error + index" where
  "items_index data =
     and_then (containers_of data) (\<lambda>containers.
     and_then (py_last containers) build_items_dictionary)"

text \<open>
  A space has content when an item of the index has its pinned container as parent. Its
  content is the flattened folders and the standalone tabs collected from those items,
  \<open>entries\<close> the bookmark entries in them, and \<open>kept\<close> says an entry has a truthy URL.
  \<open>folder_lines\<close> and \<open>block_lines\<close> are the lines written for a folder and for a space,
  \<open>document_of\<close> the document with the given blocks.
\<close>

definition with_content :: "index \<Rightarrow> space_info \<Rightarrow> bool" where
  "with_content idx space \<longleftrightarrow> top_level_items idx (pinned_container space) \<noteq> []"

definition space_content :: "nat \<Rightarrow> index \<Rightarrow> space_info \<Rightarrow> py_error + folder list \<times> tab list" where
  "space_content depth idx space =
     for_each (collect_item depth idx) (top_level_items idx (pinned_container space)) ([], [])"

definition folder_lines :: "folder \<Rightarrow> string list" where
  "folder_lines f =
     [''        <DT><H3>'' @ escape_html_text (f_title f) @ ''</H3>'', ''        <DL><p>''] @
     map (\<lambda>t. ''            '' @ anchor t) (f_tabs f) @
     [''        </DL><p>'']"

definition block_lines :: "space_info \<Rightarrow> folder list \<times> tab list \<Rightarrow> string list" where
  "block_lines space content =
     [''    <DT><H3>'' @ escape_html_text (sp_title space) @ ''</H3>'', ''    <DL><p>''] @
     concat (map folder_lines (fst content)) @
     map (\<lambda>t. ''        '' @ anchor t) (snd content) @
     [''    </DL><p>'']"

definition entries :: "folder list \<times> tab list \<Rightarrow> tab list" where
  "entries content = concat (map f_tabs (fst content)) @ snd content"

definition kept :: "tab \<Rightarrow> bool" where
  "kept t \<longleftrightarrow> py_truthy (t_url t)"

definition document_of :: "string \<Rightarrow> (space_info \<times> folder list \<times> tab list) list \<Rightarrow> string" where
  "document_of now blocks =
     join_lines (header now @ concat (map (\<lambda>b. block_lines (fst b) (snd b)) blocks) @ [''</DL><p>''])"

text \<open>
  The lines of the document after the header, as the loop over the spaces adds them to an
  empty state; \<open>shift\<close> puts what one state holds after another.
\<close>

definition empty_out :: out_state where
  "empty_out = \<lparr>html_lines = [], total_folders = 0, total_bookmarks = 0\<rparr>"

definition export_body :: "nat \<Rightarrow> index \<Rightarrow> space_info list \<Rightarrow> py_error + out_state" where
  "export_body depth idx resolved = for_each (export_space depth idx) resolved empty_out"

definition shift :: "out_state \<Rightarrow> out_state \<Rightarrow> out_state" where
  "shift out o2 =
     \<lparr>html_lines = html_lines out @ html_lines o2,
      total_folders = total_folders out + total_folders o2,
      total_bookmarks = total_bookmarks out + total_bookmarks o2\<rparr>"

text \<open>The first two lines of every document, and the third.\<close>

definition preamble :: string where
  "preamble =
     ''<!DOCTYPE NETSCAPE-Bookmark-file-1>'' @ [CHR 0x0A] @
     ''<!-- Exported from Arc Browser using arc_to_bookmarks.py -->'' @ [CHR 0x0A]"

definition date_line :: "string \<Rightarrow> string" where
  "date_line now = ''<!-- Export date: '' @ now @ '' -->''"

section \<open>Example documents\<close>

text \<open>
  An items array with a record at position 1, a record at the even position 2, a string
  and a record without \<^verbatim>\<open>id\<close> at odd positions, a number as \<^verbatim>\<open>id\<close>, a second record
  with the \<^verbatim>\<open>id\<close> of the first, and a last element without a partner.
\<close>

definition index_example :: "json list" where
  "index_example =
     [JStr ''a'', JObj [(''id'', JStr ''a''), (''title'', JStr ''first'')],
      JObj [(''id'', JStr ''ignored'')], JStr ''not a record'',
      JNull, JObj [(''title'', JStr ''no id'')],
      JStr ''b'', JObj [(''id'', JInt 7)],
      JStr ''a'', JObj [(''id'', JStr ''a''), (''title'', JStr ''second'')],
      JStr ''dangling'']"

text \<open>Two folders that list each other as a child.\<close>

definition cyclic_index :: index where
  "cyclic_index =
     [(JStr ''a'', [(''id'', JStr ''a''), (''data'', JObj [(''list'', JObj [])]),
                    (''childrenIds'', JArr [JStr ''b''])]),
      (JStr ''b'', [(''id'', JStr ''b''), (''data'', JObj [(''list'', JObj [])]),
                    (''childrenIds'', JArr [JStr ''a''])])]"

text \<open>
  A tree of folders: \<^verbatim>\<open>Docs\<close> holds a tab, the folder \<^verbatim>\<open>Empty\<close>, a tab without URL, an
  untitled folder and an id that is not in the index; \<^verbatim>\<open>Empty\<close> holds only the folder
  \<^verbatim>\<open>Deep\<close>. \<open>nested_flat\<close> is what the flattening of \<^verbatim>\<open>Docs\<close> returns.
\<close>

definition folder_item :: "string \<Rightarrow> string \<Rightarrow> string \<Rightarrow> string list \<Rightarrow> json" where
  "folder_item i title parent children =
     JObj [(''id'', JStr i), (''title'', JStr title), (''parentID'', JStr parent),
           (''childrenIds'', JArr (map JStr children)), (''data'', JObj [(''list'', JObj [])])]"

definition tab_item :: "string \<Rightarrow> string \<Rightarrow> string \<Rightarrow> string \<Rightarrow> json" where
  "tab_item i title parent url =
     JObj [(''id'', JStr i), (''title'', JStr title), (''parentID'', JStr parent),
           (''data'', JObj [(''tab'', JObj [(''savedURL'', JStr url), (''savedTitle'', JStr ''saved'')])])]"

definition nested_items :: "json list" where
  "nested_items =
     [JStr ''f1'', folder_item ''f1'' ''Docs'' ''p1'' [''t1'', ''f2'', ''t0'', ''f3'', ''gone''],
      JStr ''t1'', tab_item ''t1'' ''A'' ''f1'' ''http://a'',
      JStr ''f2'', folder_item ''f2'' ''Empty'' ''f1'' [''f4''],
      JStr ''t0'', tab_item ''t0'' ''No URL'' ''f1'' [],
      JStr ''f3'', folder_item ''f3'' [] ''f1'' [''t3''],
      JStr ''t3'', tab_item ''t3'' [] ''f3'' ''http://c'',
      JStr ''f4'', folder_item ''f4'' ''Deep'' ''f2'' [''t4''],
      JStr ''t4'', tab_item ''t4'' ''D'' ''f4'' ''http://d'']"

definition nested_index :: index where
  "nested_index = fold insert_record (odd_elements nested_items) []"

definition nested_flat :: "folder list" where
  "nested_flat =
     [\<lparr>f_title = JStr ''Docs'', f_tabs = [\<lparr>t_title = JStr ''A'', t_url = JStr ''http://a''\<rparr>]\<rparr>,
      \<lparr>f_title = JStr ''Deep'', f_tabs = [\<lparr>t_title = JStr ''D'', t_url = JStr ''http://d''\<rparr>]\<rparr>,
      \<lparr>f_title = JStr ''Untitled Folder'',
         f_tabs = [\<lparr>t_title = JStr ''saved'', t_url = JStr ''http://c''\<rparr>]\<rparr>]"

definition nested_rank :: "json \<Rightarrow> nat" where
  "nested_rank p = (if p = JStr ''f1'' then 0 else if p = JStr ''f2'' then 1 else 2)"

text \<open>
  Documents as Arc writes them: a first container without spaces, and a last one whose
  \<^verbatim>\<open>spaces\<close> and \<^verbatim>\<open>items\<close> lists alternate ids and records.
\<close>

definition space_record :: "string \<Rightarrow> string \<Rightarrow> string list \<Rightarrow> json" where
  "space_record i title container_ids =
     JObj [(''id'', JStr i), (''title'', JStr title), (''containerIDs'', JArr (map JStr container_ids))]"

definition sidebar_doc :: "json list \<Rightarrow> json list \<Rightarrow> json" where
  "sidebar_doc space_list items =
     JObj [(''sidebar'', JObj [(''containers'',
       JArr [JObj [(''global'', JObj [])],
             JObj [(''spaces'', JArr space_list), (''items'', JArr items)]])])]"

text \<open>
  One space \<^verbatim>\<open>Work\<close> whose pinned container holds the folder \<^verbatim>\<open>Docs\<close> with the tabs A
  and B, and the standalone tab C; and what the export returns for it.
\<close>

definition scenario_doc :: json where
  "scenario_doc =
     sidebar_doc
       [JStr ''s1'', space_record ''s1'' ''Work'' [''unpinned'', ''u1'', ''pinned'', ''p1'']]
       [JStr ''f1'', folder_item ''f1'' ''Docs'' ''p1'' [''t1'', ''t2''],
        JStr ''t1'', tab_item ''t1'' ''A'' ''f1'' ''http://a'',
        JStr ''t2'', tab_item ''t2'' ''B'' ''f1'' ''http://b'',
        JStr ''t3'', tab_item ''t3'' ''C'' ''p1'' ''http://c'']"

definition scenario_result :: "string \<Rightarrow> export_result" where
  \<open>scenario_result now =
     \<lparr>html = join_lines (header now @
         [''    <DT><H3>Work</H3>'',
          ''    <DL><p>'',
          ''        <DT><H3>Docs</H3>'',
          ''        <DL><p>'',
          ''            <DT><A HREF="http://a">A</A>'',
          ''            <DT><A HREF="http://b">B</A>'',
          ''        </DL><p>'',
          ''        <DT><A HREF="http://c">C</A>'',
          ''    </DL><p>'',
          ''</DL><p>'']),
      folders = 1, bookmarks = 3, spaces = 1\<rparr>\<close>

text \<open>Two spaces, of which only \<^verbatim>\<open>Work\<close> has a pinned item.\<close>

definition two_spaces_doc :: json where
  "two_spaces_doc =
     sidebar_doc
       [JStr ''s1'', space_record ''s1'' ''Work'' [''unpinned'', ''u1'', ''pinned'', ''p1''],
        JStr ''s2'', space_record ''s2'' ''Home'' [''unpinned'', ''u2'', ''pinned'', ''p2'']]
       [JStr ''t1'', tab_item ''t1'' ''A'' ''p1'' ''http://a'']"

definition two_spaces_result :: export_result where
  \<open>two_spaces_result =
     \<lparr>html = join_lines (header ''2026-01-01 00:00:00'' @
         [''    <DT><H3>Work</H3>'',
          ''    <DL><p>'',
          ''        <DT><A HREF="http://a">A</A>'',
          ''    </DL><p>'',
          ''</DL><p>'']),
      folders = 0, bookmarks = 1, spaces = 2\<rparr>\<close>

text \<open>
  One space without a \<^verbatim>\<open>pinned\<close> marker in its \<^verbatim>\<open>containerIDs\<close>, and one tab without a
  \<^verbatim>\<open>parentID\<close>.
\<close>

definition no_pinned_doc :: json where
  "no_pinned_doc =
     sidebar_doc
       [JStr ''s1'', space_record ''s1'' ''Work'' [''unpinned'', ''u1'']]
       [JStr ''t1'', JObj [(''id'', JStr ''t1''), (''title'', JStr ''Loose''),
                          (''data'', JObj [(''tab'', JObj [(''savedURL'', JStr ''http://x'')])])]]"

definition no_pinned_result :: export_result where
  \<open>no_pinned_result =
     \<lparr>html = join_lines (header ''2026-01-01 00:00:00'' @
         [''    <DT><H3>Work</H3>'',
          ''    <DL><p>'',
          ''        <DT><A HREF="http://x">Loose</A>'',
          ''    </DL><p>'',
          ''</DL><p>'']),
      folders = 0, bookmarks = 1, spaces = 1\<rparr>\<close>

text \<open>One space record with a \<^verbatim>\<open>title\<close> and no \<^verbatim>\<open>id\<close>.\<close>

definition no_id_doc :: json where
  "no_id_doc =
     sidebar_doc
       [JObj [(''title'', JStr ''Work''), (''containerIDs'', JArr [JStr ''pinned'', JStr ''p1''])]]
       [JStr ''t1'', tab_item ''t1'' ''A'' ''p1'' ''http://a'']"

text \<open>
  The example tree in the pinned container of one space, with two standalone tabs, one
  of them without URL.
\<close>

definition nested_doc :: json where
  "nested_doc =
     sidebar_doc
       [JStr ''s1'', space_record ''s1'' ''Work'' [''pinned'', ''p1'']]
       (nested_items @
        [JStr ''t5'', tab_item ''t5'' ''Blank'' ''p1'' [],
         JStr ''t6'', tab_item ''t6'' ''E'' ''p1'' ''http://e''])"

definition nested_result :: export_result where
  \<open>nested_result =
     \<lparr>html = join_lines (header ''2026-01-01 00:00:00'' @
         [''    <DT><H3>Work</H3>'',
          ''    <DL><p>'',
          ''        <DT><H3>Docs</H3>'',
          ''        <DL><p>'',
          ''            <DT><A HREF="http://a">A</A>'',
          ''        </DL><p>'',
          ''        <DT><H3>Deep</H3>'',
          ''        <DL><p>'',
          ''            <DT><A HREF="http://d">D</A>'',
          ''        </DL><p>'',
          ''        <DT><H3>Untitled Folder</H3>'',
          ''        <DL><p>'',
          ''            <DT><A HREF="http://c">saved</A>'',
          ''        </DL><p>'',
          ''        <DT><A HREF="http://e">E</A>'',
          ''    </DL><p>'',
          ''</DL><p>'']),
      folders = 3, bookmarks = 4, spaces = 1\<rparr>\<close>

section \<open>Properties of the classifier\<close>

text \<open>
  C4, as amended. An item record with no \<^verbatim>\<open>data\<close> field is unknown (\<^verbatim>\<open>None\<close>). When
  \<^verbatim>\<open>data\<close> is an object, the item is a folder if \<^verbatim>\<open>data\<close> has a \<^verbatim>\<open>list\<close> key, a tab if
  it has a \<^verbatim>\<open>tab\<close> key and no \<^verbatim>\<open>list\<close> key, and unknown otherwise. When \<^verbatim>\<open>data\<close> is
  \<^verbatim>\<open>null\<close>, a boolean or a number, the membership test raises \<^verbatim>\<open>TypeError\<close>, so the
  classifier does not return for every item record. The result is a function of the
  item alone.
\<close>

theorem get_item_type_classifies:
  "(map_of item ''data'' = None \<longrightarrow> get_item_type item = Inr None) \<and>
   (\<forall>d. map_of item ''data'' = Some (JObj d) \<longrightarrow>
      get_item_type item =
        Inr (if ''list'' \<in> fst ` set d then Some Folder
             else if ''tab'' \<in> fst ` set d then Some Tab
             else None)) \<and>
   (\<forall>b n. map_of item ''data'' \<in> {Some JNull, Some (JBool b), Some (JInt n)} \<longrightarrow>
      get_item_type item = Inl TypeError)"
  by (auto simp: get_item_type_def)

theorem get_item_type_classifies_witness:
  "get_item_type [(''id'', JStr ''f''), (''data'', JObj [(''list'', JObj [])])] = Inr (Some Folder) \<and>
   get_item_type [(''id'', JStr ''t''), (''data'', JObj [(''tab'', JObj [])])] = Inr (Some Tab) \<and>
   get_item_type [(''id'', JStr ''u''), (''data'', JObj [(''other'', JObj [])])] = Inr None \<and>
   get_item_type [(''id'', JStr ''n'')] = Inr None \<and>
   get_item_type [(''id'', JStr ''z''), (''data'', JInt 5)] = Inl TypeError"
  using get_item_type_classifies [of "[(''id'', JStr ''f''), (''data'', JObj [(''list'', JObj [])])]"]
    get_item_type_classifies [of "[(''id'', JStr ''t''), (''data'', JObj [(''tab'', JObj [])])]"]
    get_item_type_classifies [of "[(''id'', JStr ''u''), (''data'', JObj [(''other'', JObj [])])]"]
    get_item_type_classifies [of "[(''id'', JStr ''n'')]"]
    get_item_type_classifies [of "[(''id'', JStr ''z''), (''data'', JInt 5)]"]
  by simp

text \<open>
  C4 as stated fails on the item \<^verbatim>\<open>{"id": "x", "data": null}\<close>: the claim classifies it
  as unknown, the code raises.
\<close>

theorem get_item_type_null_data_raises:
  "get_item_type [(''id'', JStr ''x''), (''data'', JNull)] = Inl TypeError"
  by (simp add: get_item_type_def)

section \<open>Properties of the index builder\<close>

lemma odd_elements_simps [simp]:
  "odd_elements [] = []"
  "odd_elements [a] = []"
  "odd_elements (a # b # rest) = b # odd_elements rest"
  by (simp_all add: odd_elements_def map_upt_Suc del: upt_Suc)

lemma index_pairs_step:
  "index_pairs (a # b # rest) idx =
     (if storable b then index_pairs rest (insert_record b idx) else Inl TypeError)"
  by (simp add: storable_def insert_record_def split: json.splits option.splits)

lemma index_pairs_fold:
  "index_pairs xs idx =
     (if list_all storable (odd_elements xs)
      then Inr (fold insert_record (odd_elements xs) idx)
      else Inl TypeError)"
proof (induction xs arbitrary: idx rule: induct_list012)
  case (3 a b rest)
  show ?case
    by (simp add: index_pairs_step "3.IH"(1) del: index_pairs.simps)
qed simp_all

lemma even_neq_odd: "2 * (k::nat) \<noteq> Suc (2 * x)"
  by presburger

lemma odd_elements_update_even: "odd_elements (xs[2 * k := v]) = odd_elements xs"
  by (simp add: odd_elements_def nth_list_update_neq even_neq_odd)

text \<open>
  C3, as amended. The index built from an items array is the result of storing, in order,
  the elements at the odd positions that are records with an \<^verbatim>\<open>id\<close>; every other
  element at an odd position is skipped, and the elements at the even positions are
  never read: replacing one changes nothing. This holds when every such \<^verbatim>\<open>id\<close> is
  hashable (a string, a number, a boolean or \<^verbatim>\<open>null\<close>); a record whose \<^verbatim>\<open>id\<close> is a list
  or a dict makes the builder raise \<^verbatim>\<open>TypeError\<close>. An empty array gives the empty
  index, and so does a container with no \<^verbatim>\<open>items\<close> field.
\<close>

theorem build_index_pairs:
  "build_index (JArr xs) =
     (if list_all storable (odd_elements xs)
      then Inr (fold insert_record (odd_elements xs) [])
      else Inl TypeError) \<and>
   (\<forall>k v. build_index (JArr (xs[2 * k := v])) = build_index (JArr xs)) \<and>
   build_index (JArr []) = Inr [] \<and>
   (map_of c ''items'' = None \<longrightarrow> build_items_dictionary (JObj c) = Inr [])"
  by (simp add: build_index_def index_pairs_fold odd_elements_update_even
        build_items_dictionary_def obj_get_def)

theorem build_index_pairs_witness:
  "build_index (JArr index_example) =
     Inr [(JStr ''a'', [(''id'', JStr ''a''), (''title'', JStr ''second'')]),
          (JInt 7, [(''id'', JInt 7)])] \<and>
   build_index (JArr (index_example[2 := JObj [(''id'', JArr [])]])) =
     build_index (JArr index_example) \<and>
   build_items_dictionary (JObj [(''spaces'', JArr [])]) = Inr []"
proof -
  note t = build_index_pairs [of index_example "[(''spaces'', JArr [])]"]
  have a: "list_all storable (odd_elements index_example)"
    by (simp add: index_example_def storable_def)
  have b: "fold insert_record (odd_elements index_example) [] =
      [(JStr ''a'', [(''id'', JStr ''a''), (''title'', JStr ''second'')]),
       (JInt 7, [(''id'', JInt 7)])]"
    by (simp add: index_example_def insert_record_def)
  have c: "index_example[2 := JObj [(''id'', JArr [])]] = index_example[2 * 1 := JObj [(''id'', JArr [])]]"
    by simp
  from t a b have 1: "build_index (JArr index_example) =
     Inr [(JStr ''a'', [(''id'', JStr ''a''), (''title'', JStr ''second'')]),
          (JInt 7, [(''id'', JInt 7)])]"
    by simp
  from t have 2: "build_index (JArr (index_example[2 * 1 := JObj [(''id'', JArr [])]])) =
     build_index (JArr index_example)"
    by blast
  from t have 3: "build_items_dictionary (JObj [(''spaces'', JArr [])]) = Inr []"
    by simp
  from 2 have two: "build_index (JArr (index_example[2 := JObj [(''id'', JArr [])]])) =
     build_index (JArr index_example)"
    unfolding c .
  from 1 two 3 show ?thesis by blast
qed

text \<open>
  C3 as stated fails on the items array \<^verbatim>\<open>["m", {"id": []}]\<close>: the record at position 1
  has an \<^verbatim>\<open>id\<close>, and storing it raises instead of inserting or skipping it.
\<close>

theorem build_index_unhashable_id_raises:
  "build_index (JArr [JStr ''m'', JObj [(''id'', JArr [])]]) = Inl TypeError"
  by (simp add: build_index_def)

section \<open>Properties of the folder flattener\<close>

subsection \<open>The flattening is the pre-order listing\<close>

lemma and_then_Inr_iff:
  "and_then m f = Inr y \<longleftrightarrow> (\<exists>x. m = Inr x \<and> f x = Inr y)"
  by (cases m) auto

lemma and_then_Inl_iff:
  "and_then m f = Inl e \<longleftrightarrow> m = Inl e \<or> (\<exists>x. m = Inr x \<and> f x = Inl e)"
  by (cases m) auto

lemma flat_Suc:
  "get_all_folders_flat (Suc depth) item_id idx collected =
     and_then (index_find idx item_id) (\<lambda>found.
       case found of
         None \<Rightarrow> Inr collected
       | Some item \<Rightarrow>
           and_then (get_item_type item) (\<lambda>t.
             if t \<noteq> Some Folder then Inr collected
             else
               and_then (get_folder_with_direct_tabs item_id idx) (\<lambda>fld.
               and_then (py_iter (obj_get item ''childrenIds'' (JArr []))) (\<lambda>children.
                 for_each (visit_child (\<lambda>c acc. get_all_folders_flat depth c idx acc) idx)
                   children
                   (case fld of
                      None \<Rightarrow> collected
                    | Some f \<Rightarrow> if f_tabs f \<noteq> [] then collected @ [f] else collected)))))"
  unfolding visit_child_def by simp

lemma visit_child_cases:
  assumes "visit_child recurse idx c acc = Inr acc'"
  shows "(is_folder idx c \<and> recurse c acc = Inr acc') \<or> (\<not> is_folder idx c \<and> acc' = acc)"
  using assms
  by (auto simp: visit_child_def is_folder_def and_then_Inr_iff split: option.splits if_splits)

lemma for_each_visit:
  assumes "for_each (visit_child recurse idx) cs acc = Inr r"
    and "\<And>c a r'. c \<in> set cs \<Longrightarrow> recurse c a = Inr r' \<Longrightarrow> r' = a @ F c"
  shows "r = acc @ concat (map F (filter (is_folder idx) cs))"
  using assms
proof (induction cs arbitrary: acc)
  case Nil
  then show ?case by simp
next
  case (Cons c cs)
  from Cons.prems(1) obtain acc1 where
    b: "visit_child recurse idx c acc = Inr acc1" and
    rest: "for_each (visit_child recurse idx) cs acc1 = Inr r"
    by (auto simp: and_then_Inr_iff)
  have r: "r = acc1 @ concat (map F (filter (is_folder idx) cs))"
    using Cons.IH [OF rest] Cons.prems(2) by simp
  from visit_child_cases [OF b] show ?case
  proof
    assume "is_folder idx c \<and> recurse c acc = Inr acc1"
    then show ?thesis using r Cons.prems(2) [of c acc acc1] by simp
  next
    assume "\<not> is_folder idx c \<and> acc1 = acc"
    then show ?thesis using r by simp
  qed
qed

lemma own_entry_start:
  "get_folder_with_direct_tabs k idx = Inr fld \<Longrightarrow>
   (case fld of None \<Rightarrow> collected
    | Some f \<Rightarrow> if f_tabs f \<noteq> [] then collected @ [f] else collected) = collected @ own_entry idx k"
  by (auto simp: own_entry_def split: option.splits)

lemma concat_map_concat:
  "concat (map f (concat xss)) = concat (map (\<lambda>xs. concat (map f xs)) xss)"
  by (induction xss) simp_all

lemma flat_is_preorder:
  "get_all_folders_flat depth k idx acc = Inr r \<Longrightarrow>
   r = acc @ concat (map (own_entry idx) (preorder depth idx k))"
proof (induction depth arbitrary: k acc r)
  case 0
  then show ?case by simp
next
  case (Suc depth)
  show ?case
  proof (cases "is_folder idx k")
    case False
    with Suc.prems show ?thesis
      by (auto simp: is_folder_def and_then_Inr_iff split: option.splits if_splits sum.splits)
  next
    case True
    then obtain item where
      item: "index_find idx k = Inr (Some item)" "get_item_type item = Inr (Some Folder)"
      by (auto simp: is_folder_def split: sum.splits option.splits)
    from Suc.prems item obtain fld children where
      fld: "get_folder_with_direct_tabs k idx = Inr fld" and
      ch: "py_iter (obj_get item ''childrenIds'' (JArr [])) = Inr children" and
      loop: "for_each (visit_child (\<lambda>c a. get_all_folders_flat depth c idx a) idx) children
               (acc @ own_entry idx k) = Inr r"
      unfolding flat_Suc by (auto simp: and_then_Inr_iff own_entry_start)
    have fc: "folder_children idx k = filter (is_folder idx) children"
      using item ch by (simp add: folder_children_def)
    have "r = (acc @ own_entry idx k) @
        concat (map (\<lambda>c. concat (map (own_entry idx) (preorder depth idx c)))
                  (filter (is_folder idx) children))"
      by (rule for_each_visit [OF loop]) (use Suc.IH in blast)
    then show ?thesis
      using True fc by (simp add: concat_map_concat comp_def)
  qed
qed

lemma folder_children_not_folder: "\<not> is_folder idx k \<Longrightarrow> folder_children idx k = []"
  by (auto simp: is_folder_def folder_children_def split: sum.splits option.splits)

lemma folder_childrenE:
  assumes "c \<in> set (folder_children idx k)"
  obtains item children where
    "index_find idx k = Inr (Some item)" "get_item_type item = Inr (Some Folder)"
    "py_iter (obj_get item ''childrenIds'' (JArr [])) = Inr children"
    "c \<in> set children" "is_folder idx c"
proof (cases "index_find idx k")
  case (Inl e)
  with assms show ?thesis by (simp add: folder_children_def)
next
  case (Inr found)
  show ?thesis
  proof (cases found)
    case None
    with Inr assms show ?thesis by (simp add: folder_children_def)
  next
    case (Some item)
    have fc: "folder_children idx k =
        (if get_item_type item = Inr (Some Folder)
         then (case py_iter (obj_get item ''childrenIds'' (JArr [])) of
                 Inr children \<Rightarrow> filter (is_folder idx) children
               | Inl e \<Rightarrow> [])
         else [])"
      using Inr Some by (simp add: folder_children_def)
    with assms have t: "get_item_type item = Inr (Some Folder)"
      by (cases "get_item_type item = Inr (Some Folder)") simp_all
    show ?thesis
    proof (cases "py_iter (obj_get item ''childrenIds'' (JArr []))")
      case (Inl e)
      with fc t assms show ?thesis by simp
    next
      case (Inr children)
      with fc t assms have "c \<in> set children" "is_folder idx c" by simp_all
      with \<open>index_find idx k = Inr found\<close> Some t Inr that show ?thesis by simp
    qed
  qed
qed

lemma folder_children_are_folders: "c \<in> set (folder_children idx k) \<Longrightarrow> is_folder idx c"
  by (erule folder_childrenE)

lemma preorder_sound:
  "c \<in> set (preorder depth idx k) \<Longrightarrow> (c, k) \<in> (child_rel idx)\<^sup>* \<and> is_folder idx c"
proof (induction depth arbitrary: k)
  case 0
  then show ?case by simp
next
  case (Suc depth)
  then have f: "is_folder idx k" by (auto split: if_splits)
  from Suc.prems f consider "c = k"
    | c' where "c' \<in> set (folder_children idx k)" "c \<in> set (preorder depth idx c')"
    by auto
  then show ?case
  proof cases
    case 1
    then show ?thesis using f by simp
  next
    case 2
    then have "(c, c') \<in> (child_rel idx)\<^sup>*" "is_folder idx c" "(c', k) \<in> child_rel idx"
      using Suc.IH by (auto simp: child_rel_def)
    then show ?thesis by auto
  qed
qed

lemma for_each_visit_success:
  assumes "for_each (visit_child recurse idx) cs acc = Inr r"
    and "c \<in> set cs" and "is_folder idx c"
  shows "\<exists>a r'. recurse c a = Inr r'"
  using assms
proof (induction cs arbitrary: acc)
  case Nil
  then show ?case by simp
next
  case (Cons x cs)
  from Cons.prems(1) obtain acc1 where
    b: "visit_child recurse idx x acc = Inr acc1" and
    rest: "for_each (visit_child recurse idx) cs acc1 = Inr r"
    by (auto simp: and_then_Inr_iff)
  show ?case
  proof (cases "c = x")
    case True
    with visit_child_cases [OF b] Cons.prems(3) show ?thesis by blast
  next
    case False
    with Cons.prems(2) have "c \<in> set cs" by simp
    from Cons.IH [OF rest this Cons.prems(3)] show ?thesis .
  qed
qed

lemma flat_children_succeed:
  assumes "get_all_folders_flat (Suc depth) k idx acc = Inr r"
    and "c \<in> set (folder_children idx k)"
  shows "\<exists>a r'. get_all_folders_flat depth c idx a = Inr r'"
proof -
  from assms(2) obtain item children where
    item: "index_find idx k = Inr (Some item)" "get_item_type item = Inr (Some Folder)" and
    ch: "py_iter (obj_get item ''childrenIds'' (JArr [])) = Inr children" and
    c: "c \<in> set children" "is_folder idx c"
    by (rule folder_childrenE)
  from assms(1) item ch obtain start where
    "for_each (visit_child (\<lambda>c a. get_all_folders_flat depth c idx a) idx) children start = Inr r"
    unfolding flat_Suc by (auto simp: and_then_Inr_iff)
  from for_each_visit_success [OF this c] show ?thesis .
qed

lemma preorder_complete:
  "get_all_folders_flat depth k idx acc = Inr r \<Longrightarrow> (c, k) \<in> (child_rel idx)\<^sup>* \<Longrightarrow>
   is_folder idx c \<Longrightarrow> c \<in> set (preorder depth idx k)"
proof (induction depth arbitrary: k acc r)
  case 0
  then show ?case by simp
next
  case (Suc depth)
  from Suc.prems(2) show ?case
  proof (cases rule: rtranclE)
    case base
    then show ?thesis using Suc.prems(3) by simp
  next
    case (step c')
    then have c': "c' \<in> set (folder_children idx k)" by (simp add: child_rel_def)
    then have f: "is_folder idx k" using folder_children_not_folder by fastforce
    from flat_children_succeed [OF Suc.prems(1) c'] obtain a r' where
      "get_all_folders_flat depth c' idx a = Inr r'" by blast
    from Suc.IH [OF this step(1) Suc.prems(3)] show ?thesis using c' f by auto
  qed
qed

lemma set_own_entry:
  "set (own_entry idx c) = {f. get_folder_with_direct_tabs c idx = Inr (Some f) \<and> f_tabs f \<noteq> []}"
  by (auto simp: own_entry_def split: sum.splits option.splits)

lemma folder_is_folder: "get_folder_with_direct_tabs c idx = Inr (Some f) \<Longrightarrow> is_folder idx c"
  by (auto simp: get_folder_with_direct_tabs_def is_folder_def and_then_Inr_iff
      split: option.splits if_splits)

subsection \<open>Recursion depth\<close>

lemma for_each_no_error:
  "(\<And>x s. x \<in> set xs \<Longrightarrow> body x s \<noteq> Inl e) \<Longrightarrow> for_each body xs s \<noteq> Inl e"
  by (induction xs arbitrary: s) (auto simp: and_then_Inl_iff)

lemma index_find_no_recursion [simp]: "index_find idx k \<noteq> Inl RecursionError"
  by (simp add: index_find_def)

lemma py_contains_no_recursion [simp]: "py_contains k x \<noteq> Inl RecursionError"
  by (cases x) simp_all

lemma py_iter_no_recursion [simp]: "py_iter x \<noteq> Inl RecursionError"
  by (cases x) simp_all

lemma py_item_no_recursion [simp]: "py_item x k \<noteq> Inl RecursionError"
  by (cases x) (simp_all split: option.splits)

lemma py_get_no_recursion [simp]: "py_get x k d \<noteq> Inl RecursionError"
  by (cases x) simp_all

lemma get_item_type_no_recursion [simp]: "get_item_type item \<noteq> Inl RecursionError"
  by (auto simp: get_item_type_def and_then_Inl_iff split: option.splits)

lemma read_tab_no_recursion [simp]: "read_tab child \<noteq> Inl RecursionError"
  unfolding read_tab_def by (simp add: and_then_Inl_iff del: py_item.simps)

lemma direct_tab_no_recursion [simp]: "direct_tab idx c tabs \<noteq> Inl RecursionError"
  by (auto simp: direct_tab_def and_then_Inl_iff split: option.splits)

lemma get_folder_no_recursion [simp]:
  "get_folder_with_direct_tabs k idx \<noteq> Inl RecursionError"
  by (auto simp: get_folder_with_direct_tabs_def and_then_Inl_iff for_each_no_error
      split: option.splits)

lemma visit_child_no_recursion:
  assumes "is_folder idx c \<Longrightarrow> recurse c acc \<noteq> Inl RecursionError"
  shows "visit_child recurse idx c acc \<noteq> Inl RecursionError"
  using assms
  by (auto simp: visit_child_def is_folder_def and_then_Inl_iff split: option.splits)

lemma flat_Suc_no_recursion:
  assumes "\<And>c a. c \<in> set (folder_children idx k) \<Longrightarrow>
             get_all_folders_flat depth c idx a \<noteq> Inl RecursionError"
  shows "get_all_folders_flat (Suc depth) k idx acc \<noteq> Inl RecursionError"
proof
  assume e: "get_all_folders_flat (Suc depth) k idx acc = Inl RecursionError"
  then obtain item fld children start where
    item: "index_find idx k = Inr (Some item)" "get_item_type item = Inr (Some Folder)" and
    ch: "py_iter (obj_get item ''childrenIds'' (JArr [])) = Inr children" and
    loop: "for_each (visit_child (\<lambda>c a. get_all_folders_flat depth c idx a) idx) children start
             = Inl RecursionError"
    unfolding flat_Suc
    by (auto simp: and_then_Inl_iff split: option.splits if_splits)
  have fc: "folder_children idx k = filter (is_folder idx) children"
    using item ch by (simp add: folder_children_def)
  have "for_each (visit_child (\<lambda>c a. get_all_folders_flat depth c idx a) idx) children start
          \<noteq> Inl RecursionError"
    by (rule for_each_no_error, rule visit_child_no_recursion) (simp add: assms fc)
  with loop show False by contradiction
qed

lemma hashable_py_eq_cases:
  "hashable p \<Longrightarrow> py_eq k p \<Longrightarrow> p \<in> {k, JBool True, JBool False, JInt 0, JInt 1}"
  by (cases k; cases p) (auto split: if_splits)

lemma hashable_py_eq_finite: "finite {p. hashable p \<and> py_eq k p}"
proof -
  have "{p. hashable p \<and> py_eq k p} \<subseteq> {k, JBool True, JBool False, JInt 0, JInt 1}"
    using hashable_py_eq_cases by blast
  then show ?thesis by (rule finite_subset) simp
qed

lemma index_lookup_Some_key:
  "index_lookup idx p = Some v \<Longrightarrow> \<exists>kv \<in> set idx. py_eq (fst kv) p"
  by (induction idx) (auto split: if_splits)

lemma finite_found: "finite {p. \<exists>item. index_find idx p = Inr (Some item)}"
proof -
  have "{p. \<exists>item. index_find idx p = Inr (Some item)}
      \<subseteq> (\<Union>kv \<in> set idx. {p. hashable p \<and> py_eq (fst kv) p})"
    by (auto simp: index_find_def split: if_splits dest: index_lookup_Some_key)
  moreover have "finite (\<Union>kv \<in> set idx. {p. hashable p \<and> py_eq (fst kv) p})"
    by (simp add: hashable_py_eq_finite)
  ultimately show ?thesis by (rule finite_subset)
qed

lemma finite_child_rel: "finite (child_rel idx)"
proof -
  let ?P = "{p. \<exists>item. index_find idx p = Inr (Some item)}"
  have "child_rel idx \<subseteq> (\<Union>p \<in> ?P. (\<lambda>c. (c, p)) ` set (folder_children idx p))"
  proof
    fix e
    assume "e \<in> child_rel idx"
    then obtain c p where e: "e = (c, p)" "c \<in> set (folder_children idx p)"
      by (auto simp: child_rel_def)
    from e(2) have "p \<in> ?P" by (rule folder_childrenE) blast
    with e show "e \<in> (\<Union>p \<in> ?P. (\<lambda>c. (c, p)) ` set (folder_children idx p))" by blast
  qed
  moreover have "finite (\<Union>p \<in> ?P. (\<lambda>c. (c, p)) ` set (folder_children idx p))"
    using finite_found by simp
  ultimately show ?thesis by (rule finite_subset)
qed

lemma uniform_bound:
  "(\<And>c. c \<in> set cs \<Longrightarrow> \<exists>n. \<forall>d\<ge>n. Q c d) \<Longrightarrow> \<exists>N::nat. \<forall>c \<in> set cs. \<forall>d\<ge>N. Q c d"
proof (induction cs)
  case Nil
  then show ?case by simp
next
  case (Cons c cs)
  then obtain N where N: "\<forall>x \<in> set cs. \<forall>d\<ge>N. Q x d" by auto
  from Cons.prems [of c] obtain n where n: "\<forall>d\<ge>n. Q c d" by auto
  have "\<forall>x \<in> set (c # cs). \<forall>d\<ge>max n N. Q x d"
    using N n by auto
  then show ?case ..
qed

lemma flat_bounded_depth:
  assumes "acyclic (child_rel idx)"
  shows "\<exists>n. \<forall>depth\<ge>n. \<forall>acc. get_all_folders_flat depth k idx acc \<noteq> Inl RecursionError"
proof -
  have "wf (child_rel idx)"
    using finite_child_rel assms by (rule finite_acyclic_wf)
  then show ?thesis
  proof (induction k rule: wf_induct_rule)
    case (less k)
    have "\<exists>N. \<forall>c \<in> set (folder_children idx k). \<forall>d\<ge>N.
            \<forall>acc. get_all_folders_flat d c idx acc \<noteq> Inl RecursionError"
      by (rule uniform_bound) (simp add: less child_rel_def)
    then obtain N where N: "\<And>c d acc. c \<in> set (folder_children idx k) \<Longrightarrow> N \<le> d \<Longrightarrow>
        get_all_folders_flat d c idx acc \<noteq> Inl RecursionError"
      by blast
    have "\<forall>depth\<ge>Suc N. \<forall>acc. get_all_folders_flat depth k idx acc \<noteq> Inl RecursionError"
    proof (intro allI impI)
      fix depth acc
      assume "Suc N \<le> depth"
      then obtain d where d: "depth = Suc d" "N \<le> d" by (cases depth) auto
      show "get_all_folders_flat depth k idx acc \<noteq> Inl RecursionError"
        unfolding d(1) by (rule flat_Suc_no_recursion) (simp add: N d(2))
    qed
    then show ?case ..
  qed
qed

lemma cyclic_lookups:
  "index_find cyclic_index (JStr ''a'') =
     Inr (Some [(''id'', JStr ''a''), (''data'', JObj [(''list'', JObj [])]),
                (''childrenIds'', JArr [JStr ''b''])])"
  "index_find cyclic_index (JStr ''b'') =
     Inr (Some [(''id'', JStr ''b''), (''data'', JObj [(''list'', JObj [])]),
                (''childrenIds'', JArr [JStr ''a''])])"
  by (simp_all add: cyclic_index_def index_find_def)

lemma cyclic_folders:
  "get_folder_with_direct_tabs (JStr ''a'') cyclic_index =
     Inr (Some \<lparr>f_title = JStr ''Untitled Folder'', f_tabs = []\<rparr>)"
  "get_folder_with_direct_tabs (JStr ''b'') cyclic_index =
     Inr (Some \<lparr>f_title = JStr ''Untitled Folder'', f_tabs = []\<rparr>)"
  by (simp_all add: get_folder_with_direct_tabs_def cyclic_lookups get_item_type_def
      direct_tab_def obj_get_def py_or_def)

lemma cyclic_never_returns:
  "get_all_folders_flat depth (JStr ''a'') cyclic_index acc = Inl RecursionError \<and>
   get_all_folders_flat depth (JStr ''b'') cyclic_index acc = Inl RecursionError"
proof (induction depth arbitrary: acc)
  case 0
  show ?case by simp
next
  case (Suc depth)
  show ?case
    by (simp add: cyclic_lookups cyclic_folders get_item_type_def obj_get_def Suc)
qed

subsection \<open>The example tree\<close>

lemma nested_flat_eval:
  "get_all_folders_flat 3 (JStr ''f1'') nested_index [] = Inr nested_flat"
  by code_simp

lemma nested_preorder_eval:
  "preorder 3 nested_index (JStr ''f1'') = [JStr ''f1'', JStr ''f2'', JStr ''f4'', JStr ''f3'']"
  by code_simp

lemma nested_shallow: "get_all_folders_flat 2 (JStr ''f1'') nested_index [] = Inl RecursionError"
  by code_simp

lemma nested_index_eval:
  "nested_index =
     [(JStr ''f1'', [(''id'', JStr ''f1''), (''title'', JStr ''Docs''), (''parentID'', JStr ''p1''),
         (''childrenIds'', JArr [JStr ''t1'', JStr ''f2'', JStr ''t0'', JStr ''f3'', JStr ''gone'']),
         (''data'', JObj [(''list'', JObj [])])]),
      (JStr ''t1'', [(''id'', JStr ''t1''), (''title'', JStr ''A''), (''parentID'', JStr ''f1''),
         (''data'', JObj [(''tab'', JObj [(''savedURL'', JStr ''http://a''), (''savedTitle'', JStr ''saved'')])])]),
      (JStr ''f2'', [(''id'', JStr ''f2''), (''title'', JStr ''Empty''), (''parentID'', JStr ''f1''),
         (''childrenIds'', JArr [JStr ''f4'']), (''data'', JObj [(''list'', JObj [])])]),
      (JStr ''t0'', [(''id'', JStr ''t0''), (''title'', JStr ''No URL''), (''parentID'', JStr ''f1''),
         (''data'', JObj [(''tab'', JObj [(''savedURL'', JStr []), (''savedTitle'', JStr ''saved'')])])]),
      (JStr ''f3'', [(''id'', JStr ''f3''), (''title'', JStr []), (''parentID'', JStr ''f1''),
         (''childrenIds'', JArr [JStr ''t3'']), (''data'', JObj [(''list'', JObj [])])]),
      (JStr ''t3'', [(''id'', JStr ''t3''), (''title'', JStr []), (''parentID'', JStr ''f3''),
         (''data'', JObj [(''tab'', JObj [(''savedURL'', JStr ''http://c''), (''savedTitle'', JStr ''saved'')])])]),
      (JStr ''f4'', [(''id'', JStr ''f4''), (''title'', JStr ''Deep''), (''parentID'', JStr ''f2''),
         (''childrenIds'', JArr [JStr ''t4'']), (''data'', JObj [(''list'', JObj [])])]),
      (JStr ''t4'', [(''id'', JStr ''t4''), (''title'', JStr ''D''), (''parentID'', JStr ''f4''),
         (''data'', JObj [(''tab'', JObj [(''savedURL'', JStr ''http://d''), (''savedTitle'', JStr ''saved'')])])])]"
  by (simp add: nested_index_def nested_items_def folder_item_def tab_item_def insert_record_def)

lemma nested_is_folder:
  "is_folder nested_index p \<longleftrightarrow> p \<in> {JStr ''f1'', JStr ''f2'', JStr ''f3'', JStr ''f4''}"
  by (cases p) (auto simp: nested_index_eval is_folder_def index_find_def get_item_type_def)

lemma folder_children_filter:
  "index_find idx k = Inr (Some item) \<Longrightarrow> get_item_type item = Inr (Some Folder) \<Longrightarrow>
   py_iter (obj_get item ''childrenIds'' (JArr [])) = Inr children \<Longrightarrow>
   folder_children idx k = filter (is_folder idx) children"
  by (simp add: folder_children_def)

lemma nested_children:
  "folder_children nested_index p =
     (if p = JStr ''f1'' then [JStr ''f2'', JStr ''f3'']
      else if p = JStr ''f2'' then [JStr ''f4'']
      else [])"
proof (cases "is_folder nested_index p")
  case False
  then show ?thesis
    by (auto simp: folder_children_not_folder nested_is_folder)
next
  case True
  then consider "p = JStr ''f1''" | "p = JStr ''f2''" | "p = JStr ''f3''" | "p = JStr ''f4''"
    by (auto simp: nested_is_folder)
  then show ?thesis
  proof cases
    case 1
    have "folder_children nested_index (JStr ''f1'') =
        filter (is_folder nested_index)
          [JStr ''t1'', JStr ''f2'', JStr ''t0'', JStr ''f3'', JStr ''gone'']"
      by (rule folder_children_filter)
         (simp add: nested_index_eval index_find_def get_item_type_def obj_get_def)+
    then show ?thesis using 1 by (simp add: nested_is_folder)
  next
    case 2
    have "folder_children nested_index (JStr ''f2'') = filter (is_folder nested_index) [JStr ''f4'']"
      by (rule folder_children_filter)
         (simp add: nested_index_eval index_find_def get_item_type_def obj_get_def)+
    then show ?thesis using 2 by (simp add: nested_is_folder)
  next
    case 3
    have "folder_children nested_index (JStr ''f3'') = filter (is_folder nested_index) [JStr ''t3'']"
      by (rule folder_children_filter)
         (simp add: nested_index_eval index_find_def get_item_type_def obj_get_def)+
    then show ?thesis using 3 by (simp add: nested_is_folder)
  next
    case 4
    have "folder_children nested_index (JStr ''f4'') = filter (is_folder nested_index) [JStr ''t4'']"
      by (rule folder_children_filter)
         (simp add: nested_index_eval index_find_def get_item_type_def obj_get_def)+
    then show ?thesis using 4 by (simp add: nested_is_folder)
  qed
qed

lemma nested_acyclic: "acyclic (child_rel nested_index)"
proof (rule acyclicI_order [where f = nested_rank])
  fix a b
  assume "(a, b) \<in> child_rel nested_index"
  then have "a \<in> set (folder_children nested_index b)" by (simp add: child_rel_def)
  then show "nested_rank b < nested_rank a"
    by (auto simp: nested_children nested_rank_def split: if_splits)
qed

subsection \<open>The claims\<close>

text \<open>
  C6. Whenever the flattening of \<open>item_id\<close> returns a sequence, the folders in it are
  exactly the folders at or below \<open>item_id\<close> that have at least one kept direct tab
  (\<open>f_tabs\<close> holds the tabs with a truthy URL only). So a folder with no kept direct tab
  is left out, and a descendant of it that has one is still there.
\<close>

theorem flattened_folders_are_the_nonempty_ones:
  assumes "get_all_folders_flat depth item_id idx [] = Inr result"
  shows "set result =
    {f. \<exists>c. (c, item_id) \<in> (child_rel idx)\<^sup>* \<and>
             get_folder_with_direct_tabs c idx = Inr (Some f) \<and> f_tabs f \<noteq> []}"
proof -
  have "result = concat (map (own_entry idx) (preorder depth idx item_id))"
    using flat_is_preorder [OF assms] by simp
  then have "set result = (\<Union>c \<in> set (preorder depth idx item_id). set (own_entry idx c))"
    by simp
  also have "set (preorder depth idx item_id) =
      {c. (c, item_id) \<in> (child_rel idx)\<^sup>* \<and> is_folder idx c}"
    using preorder_sound preorder_complete [OF assms] by blast
  finally show ?thesis
    using folder_is_folder by (auto simp: set_own_entry)
qed

theorem flattened_folders_are_the_nonempty_ones_witness:
  "get_all_folders_flat 3 (JStr ''f1'') nested_index [] = Inr nested_flat \<and>
   set nested_flat =
     {f. \<exists>c. (c, JStr ''f1'') \<in> (child_rel nested_index)\<^sup>* \<and>
              get_folder_with_direct_tabs c nested_index = Inr (Some f) \<and> f_tabs f \<noteq> []} \<and>
   get_folder_with_direct_tabs (JStr ''f2'') nested_index =
     Inr (Some \<lparr>f_title = JStr ''Empty'', f_tabs = []\<rparr>) \<and>
   (JStr ''f4'', JStr ''f1'') \<in> (child_rel nested_index)\<^sup>*"
proof -
  have "get_folder_with_direct_tabs (JStr ''f2'') nested_index =
      Inr (Some \<lparr>f_title = JStr ''Empty'', f_tabs = []\<rparr>)"
    by code_simp
  moreover have "(JStr ''f4'', JStr ''f2'') \<in> child_rel nested_index"
      "(JStr ''f2'', JStr ''f1'') \<in> child_rel nested_index"
    by (simp_all add: child_rel_def nested_children)
  then have "(JStr ''f4'', JStr ''f1'') \<in> (child_rel nested_index)\<^sup>*" by auto
  ultimately show ?thesis
    using flattened_folders_are_the_nonempty_ones [OF nested_flat_eval] nested_flat_eval
    by blast
qed

text \<open>
  C7. Whenever the flattening returns, its result is the accumulator followed by the
  entries of the folders in pre-order: a folder before the folders below it, the children
  in the order of \<^verbatim>\<open>childrenIds\<close>.
\<close>

theorem flattened_folders_in_preorder:
  "get_all_folders_flat depth item_id idx collected = Inr result \<Longrightarrow>
   result = collected @ concat (map (own_entry idx) (preorder depth idx item_id))"
  by (rule flat_is_preorder)

theorem flattened_folders_in_preorder_witness:
  "get_all_folders_flat 3 (JStr ''f1'') nested_index [] = Inr nested_flat \<and>
   preorder 3 nested_index (JStr ''f1'') = [JStr ''f1'', JStr ''f2'', JStr ''f4'', JStr ''f3''] \<and>
   nested_flat =
     [] @ concat (map (own_entry nested_index) [JStr ''f1'', JStr ''f2'', JStr ''f4'', JStr ''f3''])"
  using flattened_folders_in_preorder [OF nested_flat_eval] nested_flat_eval nested_preorder_eval
  by simp

text \<open>
  C8. When the parent-child relation of the index is acyclic, some recursion depth is
  enough for the flattening of any id: from that depth on no call ends in
  \<^verbatim>\<open>RecursionError\<close>. Nothing guards against a cycle: on the index of two folders that
  list each other, the call ends in \<^verbatim>\<open>RecursionError\<close> at every depth.
\<close>

theorem flattening_terminates:
  "(acyclic (child_rel idx) \<longrightarrow>
      (\<exists>n. \<forall>depth\<ge>n. \<forall>collected.
         get_all_folders_flat depth item_id idx collected \<noteq> Inl RecursionError)) \<and>
   \<not> acyclic (child_rel cyclic_index) \<and>
   (\<forall>depth collected.
      get_all_folders_flat depth (JStr ''a'') cyclic_index collected = Inl RecursionError)"
proof (intro conjI impI)
  assume "acyclic (child_rel idx)"
  then show "\<exists>n. \<forall>depth\<ge>n. \<forall>collected.
      get_all_folders_flat depth item_id idx collected \<noteq> Inl RecursionError"
    by (rule flat_bounded_depth)
next
  show "\<not> acyclic (child_rel cyclic_index)"
  proof
    assume "acyclic (child_rel cyclic_index)"
    from flat_bounded_depth [OF this, of "JStr ''a''"] cyclic_never_returns
    show False by blast
  qed
next
  show "\<forall>depth collected.
      get_all_folders_flat depth (JStr ''a'') cyclic_index collected = Inl RecursionError"
    using cyclic_never_returns by blast
qed

theorem flattening_terminates_witness:
  "acyclic (child_rel nested_index) \<and>
   (\<exists>n. \<forall>depth\<ge>n. \<forall>collected.
      get_all_folders_flat depth (JStr ''f1'') nested_index collected \<noteq> Inl RecursionError) \<and>
   get_all_folders_flat 3 (JStr ''f1'') nested_index [] = Inr nested_flat"
  using flattening_terminates [of nested_index "JStr ''f1''"] nested_acyclic nested_flat_eval
  by blast

section \<open>Properties of the export\<close>

subsection \<open>What the loops write\<close>

lemma fold_write_tab:
  "fold (write_tab indent) ts out =
     \<lparr>html_lines = html_lines out @ map (\<lambda>t. indent @ anchor t) ts,
      total_folders = total_folders out,
      total_bookmarks = total_bookmarks out + length ts\<rparr>"
  by (induction ts arbitrary: out) (simp_all add: write_tab_def)

lemma write_folder_eq:
  "write_folder f out =
     \<lparr>html_lines = html_lines out @ folder_lines f,
      total_folders = total_folders out + 1,
      total_bookmarks = total_bookmarks out + length (f_tabs f)\<rparr>"
  by (simp add: write_folder_def fold_write_tab folder_lines_def Let_def)

lemma fold_write_folder:
  "fold write_folder fs out =
     \<lparr>html_lines = html_lines out @ concat (map folder_lines fs),
      total_folders = total_folders out + length fs,
      total_bookmarks = total_bookmarks out + length (concat (map f_tabs fs))\<rparr>"
  by (induction fs arbitrary: out) (simp_all add: write_folder_eq)

lemma export_space_eq:
  "export_space depth idx space out =
     (if with_content idx space
      then and_then (space_content depth idx space) (\<lambda>content.
             Inr \<lparr>html_lines = html_lines out @ block_lines space content,
                  total_folders = total_folders out + length (fst content),
                  total_bookmarks = total_bookmarks out + length (entries content)\<rparr>)
      else Inr out)"
  by (simp add: export_space_def with_content_def space_content_def Let_def fold_write_folder
      fold_write_tab block_lines_def entries_def add.assoc)

lemma shift_empty [simp]: "shift out empty_out = out" "shift empty_out out = out"
  by (simp_all add: shift_def empty_out_def)

lemma shift_assoc: "shift (shift a b) c = shift a (shift b c)"
  by (simp add: shift_def)

lemma export_space_shift:
  "export_space depth idx space out = map_sum id (shift out) (export_space depth idx space empty_out)"
  by (cases "space_content depth idx space")
     (simp_all add: export_space_eq shift_def empty_out_def)

lemma for_each_export_space_shift:
  "for_each (export_space depth idx) sps out =
     map_sum id (shift out) (for_each (export_space depth idx) sps empty_out)"
proof (induction sps arbitrary: out)
  case Nil
  show ?case by simp
next
  case (Cons sp sps)
  show ?case
  proof (cases "export_space depth idx sp empty_out")
    case (Inl e)
    then show ?thesis using export_space_shift [of depth idx sp out] by simp
  next
    case (Inr o1)
    then have "export_space depth idx sp out = Inr (shift out o1)"
      using export_space_shift [of depth idx sp out] by simp
    then show ?thesis
      using Inr Cons.IH [of "shift out o1"] Cons.IH [of o1]
      by (cases "for_each (export_space depth idx) sps empty_out") (simp_all add: shift_assoc)
  qed
qed

lemma generate_html_body:
  "generate_html depth now idx resolved =
     and_then (export_body depth idx resolved) (\<lambda>body.
       Inr \<lparr>html = join_lines (header now @ html_lines body @ [''</DL><p>'']),
            folders = total_folders body,
            bookmarks = total_bookmarks body,
            spaces = length resolved\<rparr>)"
proof -
  let ?start = "\<lparr>html_lines = header now, total_folders = 0, total_bookmarks = 0\<rparr>"
  have "for_each (export_space depth idx) resolved ?start =
      map_sum id (shift ?start) (export_body depth idx resolved)"
    unfolding export_body_def by (rule for_each_export_space_shift)
  then show ?thesis
    by (cases "export_body depth idx resolved") (simp_all add: generate_html_def shift_def)
qed

lemma export_body_blocks:
  "for_each (export_space depth idx) sps out = Inr out' \<Longrightarrow>
   \<exists>contents.
     list_all2 (\<lambda>sp c. space_content depth idx sp = Inr c) (filter (with_content idx) sps) contents \<and>
     html_lines out' = html_lines out @
       concat (map (\<lambda>b. block_lines (fst b) (snd b)) (zip (filter (with_content idx) sps) contents)) \<and>
     total_folders out' = total_folders out + sum_list (map (\<lambda>c. length (fst c)) contents) \<and>
     total_bookmarks out' = total_bookmarks out + sum_list (map (\<lambda>c. length (entries c)) contents)"
proof (induction sps arbitrary: out)
  case Nil
  then show ?case by simp
next
  case (Cons sp sps)
  from Cons.prems obtain o1 where
    first: "export_space depth idx sp out = Inr o1" and
    rest: "for_each (export_space depth idx) sps o1 = Inr out'"
    by (auto simp: and_then_Inr_iff)
  from Cons.IH [OF rest] obtain contents where
    c: "list_all2 (\<lambda>sp c. space_content depth idx sp = Inr c) (filter (with_content idx) sps) contents"
       "html_lines out' = html_lines o1 @
          concat (map (\<lambda>b. block_lines (fst b) (snd b)) (zip (filter (with_content idx) sps) contents))"
       "total_folders out' = total_folders o1 + sum_list (map (\<lambda>c. length (fst c)) contents)"
       "total_bookmarks out' = total_bookmarks o1 + sum_list (map (\<lambda>c. length (entries c)) contents)"
    by blast
  show ?case
  proof (cases "with_content idx sp")
    case False
    with first have "o1 = out" by (simp add: export_space_eq)
    with c False show ?thesis by auto
  next
    case True
    with first obtain content where
      sc: "space_content depth idx sp = Inr content" and
      o1: "o1 = \<lparr>html_lines = html_lines out @ block_lines sp content,
                  total_folders = total_folders out + length (fst content),
                  total_bookmarks = total_bookmarks out + length (entries content)\<rparr>"
      by (auto simp: export_space_eq and_then_Inr_iff)
    have "list_all2 (\<lambda>sp c. space_content depth idx sp = Inr c)
            (filter (with_content idx) (sp # sps)) (content # contents)"
      using True sc c(1) by simp
    moreover have "html_lines out' = html_lines out @
        concat (map (\<lambda>b. block_lines (fst b) (snd b))
          (zip (filter (with_content idx) (sp # sps)) (content # contents)))"
      using True c(2) o1 by simp
    moreover have "total_folders out' =
        total_folders out + sum_list (map (\<lambda>c. length (fst c)) (content # contents))"
      using c(3) o1 by simp
    moreover have "total_bookmarks out' =
        total_bookmarks out + sum_list (map (\<lambda>c. length (entries c)) (content # contents))"
      using c(4) o1 by simp
    ultimately show ?thesis by blast
  qed
qed

subsection \<open>Resolving the spaces\<close>

lemma resolve_space_cases:
  assumes "resolve_space x acc = Inr acc'"
  shows "(titled x \<and> (\<exists>info. acc' = acc @ [info])) \<or> (\<not> titled x \<and> acc' = acc)"
proof (cases x)
  case (JObj d)
  show ?thesis
  proof (cases "map_of d ''title''")
    case None
    with JObj assms show ?thesis by (simp add: resolve_space_def titled_def)
  next
    case (Some title)
    with JObj assms show ?thesis
      by (auto simp: resolve_space_def titled_def and_then_Inr_iff simp del: py_item.simps)
  qed
qed (use assms in \<open>simp_all add: resolve_space_def titled_def\<close>)

lemma resolve_space_untitled: "\<not> titled x \<Longrightarrow> resolve_space x acc = Inr acc"
  by (cases x) (auto simp: resolve_space_def titled_def split: option.splits)

lemma for_each_resolve_length:
  "for_each resolve_space xs acc = Inr r \<Longrightarrow> length r = length acc + length (filter titled xs)"
proof (induction xs arbitrary: acc)
  case Nil
  then show ?case by simp
next
  case (Cons x xs)
  from Cons.prems obtain acc1 where
    a: "resolve_space x acc = Inr acc1" and b: "for_each resolve_space xs acc1 = Inr r"
    by (auto simp: and_then_Inr_iff)
  from resolve_space_cases [OF a] Cons.IH [OF b] show ?case by auto
qed

lemma for_each_resolve_untitled:
  "filter titled xs = [] \<Longrightarrow> for_each resolve_space xs acc = Inr acc"
  by (induction xs) (auto simp: resolve_space_untitled split: if_splits)

lemma get_spaces_info_records:
  "get_spaces_info last_container = Inr resolved \<Longrightarrow>
   \<exists>records. space_records last_container = Inr records \<and>
             length resolved = length (filter titled records)"
  by (auto simp: get_spaces_info_def space_records_def and_then_Inr_iff
      dest: for_each_resolve_length)

lemma get_spaces_info_empty:
  "get_spaces_info last_container = Inr [] \<longleftrightarrow>
   (\<exists>records. space_records last_container = Inr records \<and> filter titled records = [])"
proof
  assume "get_spaces_info last_container = Inr []"
  from get_spaces_info_records [OF this] show
    "\<exists>records. space_records last_container = Inr records \<and> filter titled records = []"
    by auto
next
  assume "\<exists>records. space_records last_container = Inr records \<and> filter titled records = []"
  then show "get_spaces_info last_container = Inr []"
    by (auto simp: get_spaces_info_def space_records_def and_then_Inr_iff
        for_each_resolve_untitled)
qed

lemma py_eq_JStr: "py_eq x (JStr s) \<longleftrightarrow> x = JStr s"
  by (cases x) auto

lemma py_eq_JNull: "py_eq x JNull \<longleftrightarrow> x = JNull"
  by (cases x) auto

lemma scan_pinned_no_marker:
  "JStr ''pinned'' \<notin> set cids \<Longrightarrow> scan_pinned container_ids n i cids pinned = Inr pinned"
  by (induction cids arbitrary: i) (auto simp: py_eq_JStr)

lemma resolve_space_no_marker:
  assumes "map_of d ''title'' = Some title" and "map_of d ''id'' = Some sid"
    and "py_iter (obj_get d ''containerIDs'' (JArr [])) = Inr cids"
    and "JStr ''pinned'' \<notin> set cids"
  shows "resolve_space (JObj d) resolved =
    Inr (resolved @ [\<lparr>sp_id = sid, sp_title = title, pinned_container = JNull\<rparr>])"
  using assms by (simp add: resolve_space_def scan_pinned_no_marker)

lemma export_space_no_pinned_container:
  assumes "pinned_container space = JNull"
    and "\<And>kv. kv \<in> set idx \<Longrightarrow> obj_get (snd kv) ''parentID'' JNull \<noteq> JNull"
  shows "export_space depth idx space out = Inr out"
proof -
  have "filter (\<lambda>kv. py_eq (obj_get (snd kv) ''parentID'' JNull) JNull) idx = []"
    using assms(2) by (simp add: py_eq_JNull filter_empty_conv)
  then show ?thesis
    using assms(1) by (simp add: export_space_def top_level_items_def)
qed

subsection \<open>The cases of \<^verbatim>\<open>export_bookmarks\<close>\<close>

lemma and_then_case: "and_then m f = (case m of Inl e \<Rightarrow> Inl e | Inr x \<Rightarrow> f x)"
  by (cases m) simp_all

lemma export_bookmarks_unfold:
  "export_bookmarks depth now data =
     (case containers_of data of
        Inl e \<Rightarrow> Inl e
      | Inr containers \<Rightarrow>
          if \<not> py_truthy containers then Inr None
          else (case py_last containers of
                  Inl e \<Rightarrow> Inl e
                | Inr last_container \<Rightarrow>
                    (case get_spaces_info last_container of
                       Inl e \<Rightarrow> Inl e
                     | Inr resolved \<Rightarrow>
                         if resolved = [] then Inr None
                         else (case build_items_dictionary last_container of
                                 Inl e \<Rightarrow> Inl e
                               | Inr idx \<Rightarrow>
                                   (case export_body depth idx resolved of
                                      Inl e \<Rightarrow> Inl e
                                    | Inr body \<Rightarrow>
                                        Inr (Some
                                          \<lparr>html = join_lines (header now @ html_lines body @ [''</DL><p>'']),
                                           folders = total_folders body,
                                           bookmarks = total_bookmarks body,
                                           spaces = length resolved\<rparr>))))))"
  unfolding export_bookmarks_def containers_of_def generate_html_body
  by (simp add: and_then_case split: sum.splits)

lemma export_bookmarks_Some_iff:
  "export_bookmarks depth now data = Inr (Some r) \<longleftrightarrow>
   (\<exists>containers last_container resolved idx body.
      containers_of data = Inr containers \<and> py_truthy containers \<and>
      py_last containers = Inr last_container \<and>
      get_spaces_info last_container = Inr resolved \<and> resolved \<noteq> [] \<and>
      build_items_dictionary last_container = Inr idx \<and>
      export_body depth idx resolved = Inr body \<and>
      r = \<lparr>html = join_lines (header now @ html_lines body @ [''</DL><p>'']),
           folders = total_folders body,
           bookmarks = total_bookmarks body,
           spaces = length resolved\<rparr>)"
  unfolding export_bookmarks_unfold
  by (auto split: sum.splits if_splits)

lemma export_bookmarks_None_iff:
  "export_bookmarks depth now data = Inr None \<longleftrightarrow>
   (\<exists>containers. containers_of data = Inr containers \<and>
      (\<not> py_truthy containers \<or>
       (\<exists>last_container. py_last containers = Inr last_container \<and>
          get_spaces_info last_container = Inr [])))"
  unfolding export_bookmarks_unfold
  by (auto split: sum.splits if_splits)

lemma export_bookmarks_now:
  "export_bookmarks depth now data = Inl e \<Longrightarrow> export_bookmarks depth now' data = Inl e"
  "export_bookmarks depth now data = Inr None \<Longrightarrow> export_bookmarks depth now' data = Inr None"
  unfolding export_bookmarks_unfold
  by (auto split: sum.splits if_splits)

lemma export_structure:
  assumes "export_bookmarks depth now data = Inr (Some r)"
  shows "\<exists>containers last_container records resolved idx contents.
      containers_of data = Inr containers \<and> py_truthy containers \<and>
      py_last containers = Inr last_container \<and>
      space_records last_container = Inr records \<and>
      get_spaces_info last_container = Inr resolved \<and>
      build_items_dictionary last_container = Inr idx \<and>
      length resolved = length (filter titled records) \<and>
      list_all2 (\<lambda>sp c. space_content depth idx sp = Inr c)
        (filter (with_content idx) resolved) contents \<and>
      html r = document_of now (zip (filter (with_content idx) resolved) contents) \<and>
      folders r = sum_list (map (\<lambda>c. length (fst c)) contents) \<and>
      bookmarks r = sum_list (map (\<lambda>c. length (entries c)) contents) \<and>
      spaces r = length resolved"
proof -
  from assms obtain containers last_container resolved idx body where
    a: "containers_of data = Inr containers" "py_truthy containers"
       "py_last containers = Inr last_container"
       "get_spaces_info last_container = Inr resolved"
       "build_items_dictionary last_container = Inr idx" and
    body: "export_body depth idx resolved = Inr body" and
    r: "r = \<lparr>html = join_lines (header now @ html_lines body @ [''</DL><p>'']),
             folders = total_folders body, bookmarks = total_bookmarks body,
             spaces = length resolved\<rparr>"
    unfolding export_bookmarks_Some_iff by blast
  from get_spaces_info_records [OF a(4)] obtain records where
    rec: "space_records last_container = Inr records"
         "length resolved = length (filter titled records)"
    by blast
  from export_body_blocks [OF body [unfolded export_body_def]] obtain contents where
    c: "list_all2 (\<lambda>sp c. space_content depth idx sp = Inr c)
          (filter (with_content idx) resolved) contents"
       "html_lines body =
          concat (map (\<lambda>b. block_lines (fst b) (snd b))
            (zip (filter (with_content idx) resolved) contents))"
       "total_folders body = sum_list (map (\<lambda>c. length (fst c)) contents)"
       "total_bookmarks body = sum_list (map (\<lambda>c. length (entries c)) contents)"
    by (auto simp: empty_out_def)
  have "html r = document_of now (zip (filter (with_content idx) resolved) contents)"
    using r c(2) by (simp add: document_of_def)
  with a rec c r show ?thesis by auto
qed

lemma join_lines_header:
  "join_lines (header now @ body @ [tail]) =
     preamble @ date_line now @ [CHR 0x0A] @
     join_lines ([''<META HTTP-EQUIV='' @ [CHR 0x22] @ ''Content-Type'' @ [CHR 0x22] @ '' CONTENT='' @
                    [CHR 0x22] @ ''text/html; charset=UTF-8'' @ [CHR 0x22] @ ''>'',
                  ''<TITLE>Arc Bookmarks</TITLE>'', ''<H1>Arc Bookmarks</H1>'', ''<DL><p>''] @
                 body @ [tail])"
  by (simp add: join_lines_def header_def preamble_def date_line_def)

subsection \<open>Entries have a URL\<close>

lemma for_each_invariant:
  assumes "for_each body xs s = Inr s'" and "I s"
    and "\<And>x a b. x \<in> set xs \<Longrightarrow> body x a = Inr b \<Longrightarrow> I a \<Longrightarrow> I b"
  shows "I s'"
  using assms
proof (induction xs arbitrary: s)
  case Nil
  then show ?case by simp
next
  case (Cons x xs)
  from Cons.prems(1) obtain s1 where
    a: "body x s = Inr s1" and b: "for_each body xs s1 = Inr s'"
    by (auto simp: and_then_Inr_iff)
  have s1: "I s1" using Cons.prems(3) [OF _ a Cons.prems(2)] by simp
  show ?case
  proof (rule Cons.IH [OF b s1])
    fix y a b
    assume "y \<in> set xs" "body y a = Inr b" "I a"
    then show "I b" using Cons.prems(3) [of y a b] by simp
  qed
qed

lemma read_tab_kept: "read_tab child = Inr (Some t) \<Longrightarrow> kept t"
  unfolding read_tab_def kept_def
  by (auto simp: and_then_Inr_iff split: if_splits simp del: py_item.simps)

lemma read_tab_no_url:
  assumes "map_of child ''data'' = Some (JObj d)" and "map_of d ''tab'' = Some (JObj tab_data)"
    and "\<not> py_truthy (obj_get tab_data ''savedURL'' (JStr []))"
  shows "read_tab child = Inr None"
  using assms by (simp add: read_tab_def)

lemma direct_tab_kept:
  "direct_tab idx c tabs = Inr tabs' \<Longrightarrow> list_all kept tabs \<Longrightarrow> list_all kept tabs'"
  unfolding direct_tab_def
  by (auto simp: and_then_Inr_iff read_tab_kept split: option.splits if_splits)

lemma get_folder_kept:
  assumes "get_folder_with_direct_tabs k idx = Inr (Some f)"
  shows "list_all kept (f_tabs f)"
proof -
  from assms obtain children where
    "for_each (direct_tab idx) children [] = Inr (f_tabs f)"
    unfolding get_folder_with_direct_tabs_def
    by (auto simp: and_then_Inr_iff split: option.splits if_splits)
  then show ?thesis
    by (rule for_each_invariant [where I = "list_all kept"]) (simp_all add: direct_tab_kept)
qed

lemma own_entry_kept: "f \<in> set (own_entry idx k) \<Longrightarrow> list_all kept (f_tabs f)"
  by (auto simp: own_entry_def get_folder_kept split: sum.splits option.splits if_splits)

lemma flat_kept:
  assumes "get_all_folders_flat depth k idx [] = Inr fs" and "f \<in> set fs"
  shows "list_all kept (f_tabs f)"
  using flat_is_preorder [OF assms(1)] assms(2) own_entry_kept by auto

lemma collect_item_kept:
  assumes "collect_item depth idx k acc = Inr acc'" and "list_all kept (entries acc)"
  shows "list_all kept (entries acc')"
proof -
  from assms(1) obtain item t where
    t: "get_item_type item = Inr t" and
    r: "(if t = Some Folder
         then and_then (get_all_folders_flat depth k idx []) (\<lambda>fs. Inr (fst acc @ fs, snd acc))
         else if t = Some Tab
         then and_then (read_tab item) (\<lambda>entry.
                Inr (fst acc, (case entry of None \<Rightarrow> snd acc | Some e \<Rightarrow> snd acc @ [e])))
         else Inr acc) = Inr acc'"
    unfolding collect_item_def by (auto simp: and_then_Inr_iff split: option.splits)
  show ?thesis
  proof (cases "t = Some Folder")
    case True
    with r obtain fs where
      fs: "get_all_folders_flat depth k idx [] = Inr fs" and acc': "acc' = (fst acc @ fs, snd acc)"
      by (auto simp: and_then_Inr_iff)
    have "list_all kept (concat (map f_tabs fs))"
      using flat_kept [OF fs] by (auto simp: list_all_iff)
    with assms(2) acc' show ?thesis by (simp add: entries_def)
  next
    case False
    with r assms(2) show ?thesis
      by (auto simp: and_then_Inr_iff entries_def read_tab_kept split: if_splits option.splits)
  qed
qed

lemma space_content_kept:
  assumes "space_content depth idx space = Inr content"
  shows "list_all kept (entries content)"
proof (rule for_each_invariant [where I = "\<lambda>c. list_all kept (entries c)"])
  show "for_each (collect_item depth idx) (top_level_items idx (pinned_container space)) ([], [])
      = Inr content"
    using assms by (simp add: space_content_def)
  show "list_all kept (entries ([], []))" by (simp add: entries_def)
  show "\<And>x a b. collect_item depth idx x a = Inr b \<Longrightarrow> list_all kept (entries a) \<Longrightarrow>
      list_all kept (entries b)"
    by (rule collect_item_kept)
qed

lemma truthy_not_empty:
  "py_truthy u \<Longrightarrow> u \<noteq> JStr [] \<and> u \<noteq> JNull"
  by auto

lemma decimal_not_empty: "decimal n \<noteq> []"
  by (subst decimal.simps) simp

lemma py_str_truthy_not_empty: "py_truthy u \<Longrightarrow> py_str u \<noteq> []"
  by (cases u) (auto simp: py_str_def decimal_not_empty)

lemma html_escape_not_empty: "s \<noteq> [] \<Longrightarrow> html_escape s \<noteq> []"
  by (cases s) (auto simp: html_escape_def html_escape_char_def)

lemma escape_url_not_empty: "py_truthy u \<Longrightarrow> escape_html_text u \<noteq> []"
  by (simp add: escape_html_text_def html_escape_not_empty py_str_truthy_not_empty)

subsection \<open>The claims\<close>

lemma scenario_eval:
  "export_bookmarks 1 ''2026-01-01 00:00:00'' scenario_doc =
     Inr (Some (scenario_result ''2026-01-01 00:00:00''))"
  by code_simp

text \<open>
  C1, as amended. The \<^verbatim>\<open>spaces\<close> counter is \<^verbatim>\<open>len(spaces)\<close>: the number of space records of
  the last container that have a \<^verbatim>\<open>title\<close>, whether or not they contributed anything. The
  document has one block for each of these spaces that has content, so the counter is at
  least the number of spaces emitted with content. For the one-space scenario the
  counts are 1 space, 1 folder and 3 bookmarks.
\<close>

theorem spaces_counter_counts_resolved_spaces:
  "(\<forall>r. export_bookmarks depth now data = Inr (Some r) \<longrightarrow>
      (\<exists>records resolved idx contents.
         last_space_records data = Inr records \<and>
         resolved_spaces data = Inr resolved \<and>
         items_index data = Inr idx \<and>
         spaces r = length (filter titled records) \<and>
         length resolved = spaces r \<and>
         list_all2 (\<lambda>sp c. space_content depth idx sp = Inr c)
           (filter (with_content idx) resolved) contents \<and>
         html r = document_of now (zip (filter (with_content idx) resolved) contents) \<and>
         length contents \<le> spaces r)) \<and>
   export_bookmarks 1 ''2026-01-01 00:00:00'' scenario_doc =
     Inr (Some (scenario_result ''2026-01-01 00:00:00'')) \<and>
   spaces (scenario_result ''2026-01-01 00:00:00'') = 1 \<and>
   folders (scenario_result ''2026-01-01 00:00:00'') = 1 \<and>
   bookmarks (scenario_result ''2026-01-01 00:00:00'') = 3"
proof (intro conjI allI impI)
  fix r
  assume "export_bookmarks depth now data = Inr (Some r)"
  from export_structure [OF this] obtain containers last_container records resolved idx contents
    where s: "containers_of data = Inr containers" "py_last containers = Inr last_container"
      "space_records last_container = Inr records"
      "length resolved = length (filter titled records)"
      "list_all2 (\<lambda>sp c. space_content depth idx sp = Inr c)
         (filter (with_content idx) resolved) contents"
      "html r = document_of now (zip (filter (with_content idx) resolved) contents)"
      "spaces r = length resolved"
      "get_spaces_info last_container = Inr resolved"
      "build_items_dictionary last_container = Inr idx"
    by blast
  have "last_space_records data = Inr records"
    using s(1-3) by (simp add: last_space_records_def)
  moreover have "resolved_spaces data = Inr resolved" "items_index data = Inr idx"
    using s(1,2,8,9) by (simp_all add: resolved_spaces_def items_index_def)
  moreover have "length contents \<le> spaces r"
    using list_all2_lengthD [OF s(5)] s(7) length_filter_le [of "with_content idx" resolved]
    by simp
  ultimately show "\<exists>records resolved idx contents.
         last_space_records data = Inr records \<and>
         resolved_spaces data = Inr resolved \<and>
         items_index data = Inr idx \<and>
         spaces r = length (filter titled records) \<and>
         length resolved = spaces r \<and>
         list_all2 (\<lambda>sp c. space_content depth idx sp = Inr c)
           (filter (with_content idx) resolved) contents \<and>
         html r = document_of now (zip (filter (with_content idx) resolved) contents) \<and>
         length contents \<le> spaces r"
    using s by auto
next
  show "export_bookmarks 1 ''2026-01-01 00:00:00'' scenario_doc =
     Inr (Some (scenario_result ''2026-01-01 00:00:00''))"
    by (rule scenario_eval)
next
  show "spaces (scenario_result ''2026-01-01 00:00:00'') = 1"
    "folders (scenario_result ''2026-01-01 00:00:00'') = 1"
    "bookmarks (scenario_result ''2026-01-01 00:00:00'') = 3"
    by (simp_all add: scenario_result_def)
qed

theorem spaces_counter_counts_resolved_spaces_witness:
  "export_bookmarks 1 ''2026-01-01 00:00:00'' two_spaces_doc = Inr (Some two_spaces_result) \<and>
   (\<exists>records resolved idx contents.
      last_space_records two_spaces_doc = Inr records \<and>
      resolved_spaces two_spaces_doc = Inr resolved \<and>
      items_index two_spaces_doc = Inr idx \<and>
      spaces two_spaces_result = length (filter titled records) \<and>
      length resolved = spaces two_spaces_result \<and>
      list_all2 (\<lambda>sp c. space_content 1 idx sp = Inr c)
        (filter (with_content idx) resolved) contents \<and>
      html two_spaces_result =
        document_of ''2026-01-01 00:00:00'' (zip (filter (with_content idx) resolved) contents) \<and>
      length contents \<le> spaces two_spaces_result)"
proof -
  have e: "export_bookmarks 1 ''2026-01-01 00:00:00'' two_spaces_doc = Inr (Some two_spaces_result)"
    by code_simp
  with spaces_counter_counts_resolved_spaces [of 1 "''2026-01-01 00:00:00''" two_spaces_doc]
  show ?thesis by blast
qed

text \<open>
  C1 as stated fails on a document with two spaces of which one has no pinned item: the
  document has the one block of \<^verbatim>\<open>Work\<close>, and the counter is 2.
\<close>

theorem spaces_counter_exceeds_emitted_spaces:
  "export_bookmarks 1 ''2026-01-01 00:00:00'' two_spaces_doc = Inr (Some two_spaces_result)"
  by code_simp

text \<open>
  C2 does not hold of the code. A space without \<^verbatim>\<open>pinned\<close> marker keeps the pinned
  container \<^verbatim>\<open>None\<close>, and \<^verbatim>\<open>item.get('parentID') == None\<close> holds of every item without
  \<^verbatim>\<open>parentID\<close>: on the document below the space \<^verbatim>\<open>Work\<close> is written with the tab
  \<^verbatim>\<open>Loose\<close> in it. (When every item has a \<^verbatim>\<open>parentID\<close>, such a space writes nothing:
  lemmas \<open>resolve_space_no_marker\<close> and \<open>export_space_no_pinned_container\<close>.)
\<close>

theorem space_without_pinned_marker_takes_parentless_items:
  "map_sum id (map pinned_container) (resolved_spaces no_pinned_doc) = Inr [JNull] \<and>
   export_bookmarks 1 ''2026-01-01 00:00:00'' no_pinned_doc = Inr (Some no_pinned_result)"
  by code_simp

text \<open>
  C5. An entry is made only of a tab whose \<^verbatim>\<open>savedURL\<close> is truthy, so neither the empty
  string nor absent, and its \<^verbatim>\<open>HREF\<close> is not empty; a tab whose \<^verbatim>\<open>savedURL\<close> is empty or
  missing gives no entry. This holds of the tabs of a folder, of every folder of a
  flattening, and of the document: it is the document of the contents of the spaces, whose
  entries all have a URL, and the \<^verbatim>\<open>bookmarks\<close> counter is the number of these entries.
\<close>

theorem no_entry_without_url:
  "(\<forall>t. read_tab child = Inr (Some t) \<longrightarrow> py_truthy (t_url t)) \<and>
   (\<forall>d tab_data. map_of child ''data'' = Some (JObj d) \<and> map_of d ''tab'' = Some (JObj tab_data) \<and>
        obj_get tab_data ''savedURL'' (JStr []) = JStr [] \<longrightarrow> read_tab child = Inr None) \<and>
   (\<forall>u. py_truthy u \<longrightarrow> u \<noteq> JStr [] \<and> u \<noteq> JNull \<and> escape_html_text u \<noteq> []) \<and>
   (\<forall>f. get_folder_with_direct_tabs item_id idx = Inr (Some f) \<longrightarrow>
      (\<forall>t \<in> set (f_tabs f). py_truthy (t_url t))) \<and>
   (\<forall>fs. get_all_folders_flat depth item_id idx [] = Inr fs \<longrightarrow>
      (\<forall>f \<in> set fs. \<forall>t \<in> set (f_tabs f). py_truthy (t_url t))) \<and>
   (\<forall>r. export_bookmarks depth now data = Inr (Some r) \<longrightarrow>
      (\<exists>resolved idx contents.
         resolved_spaces data = Inr resolved \<and>
         items_index data = Inr idx \<and>
         list_all2 (\<lambda>sp c. space_content depth idx sp = Inr c)
           (filter (with_content idx) resolved) contents \<and>
         html r = document_of now (zip (filter (with_content idx) resolved) contents) \<and>
         bookmarks r = length (concat (map entries contents)) \<and>
         (\<forall>c \<in> set contents. \<forall>t \<in> set (entries c). py_truthy (t_url t))))"
proof (intro conjI allI impI)
  fix t
  assume "read_tab child = Inr (Some t)"
  then show "py_truthy (t_url t)" using read_tab_kept by (simp add: kept_def)
next
  fix d tab_data
  assume "map_of child ''data'' = Some (JObj d) \<and> map_of d ''tab'' = Some (JObj tab_data) \<and>
        obj_get tab_data ''savedURL'' (JStr []) = JStr []"
  then show "read_tab child = Inr None" by (simp add: read_tab_no_url)
next
  fix u
  assume "py_truthy u"
  then show "u \<noteq> JStr []" "u \<noteq> JNull" "escape_html_text u \<noteq> []"
    by (auto simp: escape_url_not_empty)
next
  fix f
  assume "get_folder_with_direct_tabs item_id idx = Inr (Some f)"
  from get_folder_kept [OF this] show "\<forall>t \<in> set (f_tabs f). py_truthy (t_url t)"
    by (simp add: list_all_iff kept_def)
next
  fix fs
  assume "get_all_folders_flat depth item_id idx [] = Inr fs"
  from flat_kept [OF this] show "\<forall>f \<in> set fs. \<forall>t \<in> set (f_tabs f). py_truthy (t_url t)"
    by (simp add: list_all_iff kept_def)
next
  fix r
  assume "export_bookmarks depth now data = Inr (Some r)"
  from export_structure [OF this] obtain containers last_container resolved idx contents where
    s: "list_all2 (\<lambda>sp c. space_content depth idx sp = Inr c)
         (filter (with_content idx) resolved) contents"
      "html r = document_of now (zip (filter (with_content idx) resolved) contents)"
      "bookmarks r = sum_list (map (\<lambda>c. length (entries c)) contents)" and
    d: "containers_of data = Inr containers" "py_last containers = Inr last_container"
      "get_spaces_info last_container = Inr resolved"
      "build_items_dictionary last_container = Inr idx"
    by blast
  have tie: "resolved_spaces data = Inr resolved" "items_index data = Inr idx"
    using d by (simp_all add: resolved_spaces_def items_index_def)
  have count: "bookmarks r = length (concat (map entries contents))"
    using s(3) by (simp add: length_concat comp_def)
  have "\<forall>c \<in> set contents. \<forall>t \<in> set (entries c). py_truthy (t_url t)"
  proof
    fix c
    assume "c \<in> set contents"
    then obtain i where i: "i < length contents" "c = contents ! i"
      by (auto simp: in_set_conv_nth)
    from list_all2_nthD2 [OF s(1) i(1)] i(2)
    have "space_content depth idx (filter (with_content idx) resolved ! i) = Inr c" by simp
    from space_content_kept [OF this]
    show "\<forall>t \<in> set (entries c). py_truthy (t_url t)"
      by (simp add: list_all_iff kept_def)
  qed
  with s(1,2) tie count show "\<exists>resolved idx contents.
      resolved_spaces data = Inr resolved \<and>
      items_index data = Inr idx \<and>
      list_all2 (\<lambda>sp c. space_content depth idx sp = Inr c)
        (filter (with_content idx) resolved) contents \<and>
      html r = document_of now (zip (filter (with_content idx) resolved) contents) \<and>
      bookmarks r = length (concat (map entries contents)) \<and>
      (\<forall>c \<in> set contents. \<forall>t \<in> set (entries c). py_truthy (t_url t))"
    by blast
qed

theorem no_entry_without_url_witness:
  "read_tab [(''id'', JStr ''t0''), (''title'', JStr ''No URL''),
             (''data'', JObj [(''tab'', JObj [(''savedURL'', JStr [])])])] = Inr None \<and>
   read_tab [(''id'', JStr ''t9''), (''title'', JStr ''No URL''),
             (''data'', JObj [(''tab'', JObj [(''savedTitle'', JStr ''x'')])])] = Inr None \<and>
   get_all_folders_flat 3 (JStr ''f1'') nested_index [] = Inr nested_flat \<and>
   list_all (\<lambda>f. list_all (\<lambda>t. py_truthy (t_url t)) (f_tabs f)) nested_flat \<and>
   export_bookmarks 3 ''2026-01-01 00:00:00'' nested_doc = Inr (Some nested_result) \<and>
   (\<exists>resolved idx contents.
      resolved_spaces nested_doc = Inr resolved \<and>
      items_index nested_doc = Inr idx \<and>
      list_all2 (\<lambda>sp c. space_content 3 idx sp = Inr c)
        (filter (with_content idx) resolved) contents \<and>
      html nested_result =
        document_of ''2026-01-01 00:00:00'' (zip (filter (with_content idx) resolved) contents) \<and>
      bookmarks nested_result = length (concat (map entries contents)) \<and>
      list_all (\<lambda>c. list_all (\<lambda>t. py_truthy (t_url t)) (entries c)) contents)"
proof -
  note t0 = no_entry_without_url
    [of "[(''id'', JStr ''t0''), (''title'', JStr ''No URL''),
          (''data'', JObj [(''tab'', JObj [(''savedURL'', JStr [])])])]"
        "JStr ''f1''" nested_index 3 "''2026-01-01 00:00:00''" nested_doc]
  note t9 = no_entry_without_url
    [of "[(''id'', JStr ''t9''), (''title'', JStr ''No URL''),
          (''data'', JObj [(''tab'', JObj [(''savedTitle'', JStr ''x'')])])]"
        "JStr ''f1''" nested_index 3 "''2026-01-01 00:00:00''" nested_doc]
  have e: "export_bookmarks 3 ''2026-01-01 00:00:00'' nested_doc = Inr (Some nested_result)"
    by code_simp
  have a: "read_tab [(''id'', JStr ''t0''), (''title'', JStr ''No URL''),
             (''data'', JObj [(''tab'', JObj [(''savedURL'', JStr [])])])] = Inr None"
    using t0 by (simp add: obj_get_def)
  have b: "read_tab [(''id'', JStr ''t9''), (''title'', JStr ''No URL''),
             (''data'', JObj [(''tab'', JObj [(''savedTitle'', JStr ''x'')])])] = Inr None"
    using t9 by (simp add: obj_get_def)
  from t0 nested_flat_eval
  have c: "list_all (\<lambda>f. list_all (\<lambda>t. py_truthy (t_url t)) (f_tabs f)) nested_flat"
    unfolding list_all_iff by blast
  from t0 e have d: "\<exists>resolved idx contents.
      resolved_spaces nested_doc = Inr resolved \<and>
      items_index nested_doc = Inr idx \<and>
      list_all2 (\<lambda>sp c. space_content 3 idx sp = Inr c)
        (filter (with_content idx) resolved) contents \<and>
      html nested_result =
        document_of ''2026-01-01 00:00:00'' (zip (filter (with_content idx) resolved) contents) \<and>
      bookmarks nested_result = length (concat (map entries contents)) \<and>
      list_all (\<lambda>c. list_all (\<lambda>t. py_truthy (t_url t)) (entries c)) contents"
    unfolding list_all_iff by blast
  from a b c d e nested_flat_eval show ?thesis by blast
qed

text \<open>
  C9, as amended. \<^verbatim>\<open>main\<close> writes no file exactly when \<^verbatim>\<open>export_bookmarks\<close> returns
  \<^verbatim>\<open>None\<close> or raises, and writes the returned document otherwise. It returns \<^verbatim>\<open>None\<close>
  exactly when \<^verbatim>\<open>sidebar.containers\<close> is empty or missing, or the last container has no
  space record with a \<^verbatim>\<open>title\<close> (and reading them did not raise). In the other cases it
  returns a document and counts unless an exception ends it.
\<close>

theorem export_fails_on_none_or_exception:
  "(run_export depth now data = Exit1 \<longleftrightarrow>
      export_bookmarks depth now data = Inr None \<or>
      (\<exists>e. export_bookmarks depth now data = Inl e)) \<and>
   (\<forall>r. export_bookmarks depth now data = Inr (Some r) \<longrightarrow>
      run_export depth now data = Written (html r)) \<and>
   (export_bookmarks depth now data = Inr None \<longleftrightarrow>
      (\<exists>containers. containers_of data = Inr containers \<and>
         (\<not> py_truthy containers \<or>
          (\<exists>last_container records.
             py_last containers = Inr last_container \<and>
             space_records last_container = Inr records \<and>
             filter titled records = []))))"
proof (intro conjI)
  show "run_export depth now data = Exit1 \<longleftrightarrow>
      export_bookmarks depth now data = Inr None \<or>
      (\<exists>e. export_bookmarks depth now data = Inl e)"
    by (auto simp: run_export_def split: sum.splits option.splits)
  show "\<forall>r. export_bookmarks depth now data = Inr (Some r) \<longrightarrow>
      run_export depth now data = Written (html r)"
    by (simp add: run_export_def)
  show "export_bookmarks depth now data = Inr None \<longleftrightarrow>
      (\<exists>containers. containers_of data = Inr containers \<and>
         (\<not> py_truthy containers \<or>
          (\<exists>last_container records.
             py_last containers = Inr last_container \<and>
             space_records last_container = Inr records \<and>
             filter titled records = [])))"
    unfolding export_bookmarks_None_iff get_spaces_info_empty by blast
qed

theorem export_fails_on_none_or_exception_witness:
  "export_bookmarks 1 ''2026-01-01 00:00:00'' (JObj [(''sidebar'', JObj [])]) = Inr None \<and>
   run_export 1 ''2026-01-01 00:00:00'' (JObj [(''sidebar'', JObj [])]) = Exit1 \<and>
   export_bookmarks 1 ''2026-01-01 00:00:00'' (sidebar_doc [JStr ''s1''] []) = Inr None \<and>
   run_export 1 ''2026-01-01 00:00:00'' (sidebar_doc [JStr ''s1''] []) = Exit1 \<and>
   run_export 1 ''2026-01-01 00:00:00'' scenario_doc =
     Written (html (scenario_result ''2026-01-01 00:00:00''))"
proof -
  note t1 = export_fails_on_none_or_exception
    [of 1 "''2026-01-01 00:00:00''" "JObj [(''sidebar'', JObj [])]"]
  note t2 = export_fails_on_none_or_exception
    [of 1 "''2026-01-01 00:00:00''" "sidebar_doc [JStr ''s1''] []"]
  note t3 = export_fails_on_none_or_exception
    [of 1 "''2026-01-01 00:00:00''" scenario_doc]
  have c1: "containers_of (JObj [(''sidebar'', JObj [])]) = Inr (JArr [])"
    by (simp add: containers_of_def obj_get_def)
  have c2: "containers_of (sidebar_doc [JStr ''s1''] []) =
      Inr (JArr [JObj [(''global'', JObj [])],
                 JObj [(''spaces'', JArr [JStr ''s1'']), (''items'', JArr [])]])"
    "py_last (JArr [JObj [(''global'', JObj [])],
                 JObj [(''spaces'', JArr [JStr ''s1'']), (''items'', JArr [])]]) =
       Inr (JObj [(''spaces'', JArr [JStr ''s1'']), (''items'', JArr [])])"
    "space_records (JObj [(''spaces'', JArr [JStr ''s1'']), (''items'', JArr [])]) = Inr [JStr ''s1'']"
    "filter titled [JStr ''s1''] = []"
    by (simp_all add: containers_of_def sidebar_doc_def obj_get_def space_records_def titled_def)
  have n1: "export_bookmarks 1 ''2026-01-01 00:00:00'' (JObj [(''sidebar'', JObj [])]) = Inr None"
    using t1 c1 by simp
  have n2: "export_bookmarks 1 ''2026-01-01 00:00:00'' (sidebar_doc [JStr ''s1''] []) = Inr None"
    using t2 c2 by (simp del: py_last.simps)
  from n1 t1 have x1: "run_export 1 ''2026-01-01 00:00:00'' (JObj [(''sidebar'', JObj [])]) = Exit1"
    by blast
  from n2 t2 have x2: "run_export 1 ''2026-01-01 00:00:00'' (sidebar_doc [JStr ''s1''] []) = Exit1"
    by blast
  from t3 scenario_eval have x3: "run_export 1 ''2026-01-01 00:00:00'' scenario_doc =
     Written (html (scenario_result ''2026-01-01 00:00:00''))"
    by blast
  from n1 n2 x1 x2 x3 show ?thesis by blast
qed

text \<open>
  C9 as stated fails on a document whose only space record has a \<^verbatim>\<open>title\<close> and no \<^verbatim>\<open>id\<close>:
  there are containers and the last one has a titled space record, and the export fails,
  \<^verbatim>\<open>space['id']\<close> raising \<^verbatim>\<open>KeyError\<close>.
\<close>

theorem titled_space_without_id_raises:
  "export_bookmarks 1 ''2026-01-01 00:00:00'' no_id_doc = Inl KeyError \<and>
   run_export 1 ''2026-01-01 00:00:00'' no_id_doc = Exit1 \<and>
   map_sum id py_truthy (containers_of no_id_doc) = Inr True \<and>
   map_sum id (map titled) (last_space_records no_id_doc) = Inr [True]"
  by code_simp

text \<open>
  C10. A second run on the same document, at another time, ends the same way: with the
  same exception, with \<^verbatim>\<open>None\<close>, or with the same counts and a document that is the same
  text except for the time in its third line; the two texts differ when the times do.
\<close>

theorem export_varies_with_the_clock_only_in_the_date_line:
  "(\<forall>e. export_bookmarks depth now data = Inl e \<longrightarrow> export_bookmarks depth now' data = Inl e) \<and>
   (export_bookmarks depth now data = Inr None \<longrightarrow> export_bookmarks depth now' data = Inr None) \<and>
   (\<forall>r. export_bookmarks depth now data = Inr (Some r) \<longrightarrow>
      (\<exists>r' rest.
         export_bookmarks depth now' data = Inr (Some r') \<and>
         folders r' = folders r \<and> bookmarks r' = bookmarks r \<and> spaces r' = spaces r \<and>
         html r = preamble @ date_line now @ [CHR 0x0A] @ rest \<and>
         html r' = preamble @ date_line now' @ [CHR 0x0A] @ rest \<and>
         (now \<noteq> now' \<longrightarrow> html r \<noteq> html r')))"
proof (intro conjI allI impI)
  fix e
  assume "export_bookmarks depth now data = Inl e"
  then show "export_bookmarks depth now' data = Inl e" by (rule export_bookmarks_now)
next
  assume "export_bookmarks depth now data = Inr None"
  then show "export_bookmarks depth now' data = Inr None" by (rule export_bookmarks_now)
next
  fix r
  assume "export_bookmarks depth now data = Inr (Some r)"
  then obtain containers last_container resolved idx body where
    a: "containers_of data = Inr containers" "py_truthy containers"
       "py_last containers = Inr last_container"
       "get_spaces_info last_container = Inr resolved" "resolved \<noteq> []"
       "build_items_dictionary last_container = Inr idx"
       "export_body depth idx resolved = Inr body" and
    r: "r = \<lparr>html = join_lines (header now @ html_lines body @ [''</DL><p>'']),
             folders = total_folders body, bookmarks = total_bookmarks body,
             spaces = length resolved\<rparr>"
    unfolding export_bookmarks_Some_iff by blast
  define r' where "r' = \<lparr>html = join_lines (header now' @ html_lines body @ [''</DL><p>'']),
             folders = total_folders body, bookmarks = total_bookmarks body,
             spaces = length resolved\<rparr>"
  define rest where "rest =
     join_lines ([''<META HTTP-EQUIV='' @ [CHR 0x22] @ ''Content-Type'' @ [CHR 0x22] @ '' CONTENT='' @
                    [CHR 0x22] @ ''text/html; charset=UTF-8'' @ [CHR 0x22] @ ''>'',
                  ''<TITLE>Arc Bookmarks</TITLE>'', ''<H1>Arc Bookmarks</H1>'', ''<DL><p>''] @
                 html_lines body @ [''</DL><p>''])"
  have 1: "export_bookmarks depth now' data = Inr (Some r')"
    unfolding export_bookmarks_Some_iff r'_def using a by blast
  have 2: "html r = preamble @ date_line now @ [CHR 0x0A] @ rest"
    unfolding rest_def r by (simp only: export_result.simps join_lines_header)
  have 3: "html r' = preamble @ date_line now' @ [CHR 0x0A] @ rest"
    unfolding rest_def r'_def by (simp only: export_result.simps join_lines_header)
  have 4: "now \<noteq> now' \<longrightarrow> html r \<noteq> html r'"
    unfolding 2 3 by (simp add: date_line_def)
  have 5: "folders r' = folders r \<and> bookmarks r' = bookmarks r \<and> spaces r' = spaces r"
    by (simp add: r r'_def)
  from 1 2 3 4 5 show "\<exists>r' rest.
         export_bookmarks depth now' data = Inr (Some r') \<and>
         folders r' = folders r \<and> bookmarks r' = bookmarks r \<and> spaces r' = spaces r \<and>
         html r = preamble @ date_line now @ [CHR 0x0A] @ rest \<and>
         html r' = preamble @ date_line now' @ [CHR 0x0A] @ rest \<and>
         (now \<noteq> now' \<longrightarrow> html r \<noteq> html r')"
    by blast
qed

theorem export_varies_with_the_clock_only_in_the_date_line_witness:
  "export_bookmarks 1 ''2026-01-01 00:00:00'' scenario_doc =
     Inr (Some (scenario_result ''2026-01-01 00:00:00'')) \<and>
   (\<exists>r' rest.
      export_bookmarks 1 ''2026-01-01 00:00:01'' scenario_doc = Inr (Some r') \<and>
      folders r' = 1 \<and> bookmarks r' = 3 \<and> spaces r' = 1 \<and>
      html (scenario_result ''2026-01-01 00:00:00'') =
        preamble @ date_line ''2026-01-01 00:00:00'' @ [CHR 0x0A] @ rest \<and>
      html r' = preamble @ date_line ''2026-01-01 00:00:01'' @ [CHR 0x0A] @ rest \<and>
      html (scenario_result ''2026-01-01 00:00:00'') \<noteq> html r')"
proof -
  have ne: "''2026-01-01 00:00:00'' \<noteq> ''2026-01-01 00:00:01''" by simp
  have c: "folders (scenario_result ''2026-01-01 00:00:00'') = 1"
    "bookmarks (scenario_result ''2026-01-01 00:00:00'') = 3"
    "spaces (scenario_result ''2026-01-01 00:00:00'') = 1"
    by (simp_all add: scenario_result_def)
  note t = export_varies_with_the_clock_only_in_the_date_line
    [of 1 "''2026-01-01 00:00:00''" scenario_doc "''2026-01-01 00:00:01''"]
  from t scenario_eval obtain r' rest where
    r: "export_bookmarks 1 ''2026-01-01 00:00:01'' scenario_doc = Inr (Some r')"
       "folders r' = folders (scenario_result ''2026-01-01 00:00:00'')"
       "bookmarks r' = bookmarks (scenario_result ''2026-01-01 00:00:00'')"
       "spaces r' = spaces (scenario_result ''2026-01-01 00:00:00'')"
       "html (scenario_result ''2026-01-01 00:00:00'') =
          preamble @ date_line ''2026-01-01 00:00:00'' @ [CHR 0x0A] @ rest"
       "html r' = preamble @ date_line ''2026-01-01 00:00:01'' @ [CHR 0x0A] @ rest"
       "''2026-01-01 00:00:00'' \<noteq> ''2026-01-01 00:00:01'' \<longrightarrow>
          html (scenario_result ''2026-01-01 00:00:00'') \<noteq> html r'"
    by blast
  from r(7) ne have "html (scenario_result ''2026-01-01 00:00:00'') \<noteq> html r'" by blast
  with r(1-6) c scenario_eval show ?thesis by auto
qed

end
